theory Spec2Isabelle
  imports Complex_Main "HOL-Library.Sublist"
begin

section \<open>Replies and middleware results\<close>

text \<open>
  What a middleware or handler does with the response object. \<open>Send s b\<close> is
  \<^verbatim>\<open>res.status(s).send(b)\<close>; \<open>SendRetry s n b\<close> is the same after
  \<^verbatim>\<open>res.set('Retry-After', String(n))\<close> (the header is kept as the number it
  prints); \<open>Download p n\<close> is \<^verbatim>\<open>res.download(p, n, ...)\<close>.
\<close>

datatype reply =
    Send nat string
  | SendRetry nat int string
  | Download string string

datatype mw = Next | Reply reply

section \<open>Throttling: the per-IP fixed-window limiter\<close>

text \<open>
  A bucket is the object \<^verbatim>\<open>{ count, windowStart }\<close>. Timestamps are the integer
  milliseconds of \<^verbatim>\<open>Date.now()\<close>; the limits are the integers read by
  \<^verbatim>\<open>parseInt\<close> (a limit that does not parse, \<^verbatim>\<open>NaN\<close>, is outside the model).
  The two \<^verbatim>\<open>Map\<close> objects of the module are two cells of a heap, addressed by
  \<open>store_ref\<close>; a limiter is built with the address of the map it uses.
\<close>

record bucket =
  count :: int
  windowStart :: int

datatype store_ref = GlobalIpHits | HeavyIpHits

type_synonym ip_store = "string \<rightharpoonup> bucket"
type_synonym heap = "store_ref \<Rightarrow> ip_store"

record request =
  req_ip :: "string option"
  remoteAddress :: "string option"

text \<open>A JavaScript string is truthy unless it is missing or empty.\<close>

fun truthy :: "string option \<Rightarrow> bool" where
  "truthy None = False"
| "truthy (Some s) = (s \<noteq> [])"

definition getIp :: "'a request_scheme \<Rightarrow> string" where
  "getIp req =
     (if truthy (req_ip req) then the (req_ip req)
      else if truthy (remoteAddress req) then the (remoteAddress req)
      else ''unknown'')"

definition clearExpired :: "ip_store \<Rightarrow> int \<Rightarrow> int \<Rightarrow> ip_store" where
  "clearExpired store now windowMs =
     (\<lambda>key. case store key of
               None \<Rightarrow> None
             | Some b \<Rightarrow> if now - windowStart b \<ge> windowMs then None else Some b)"

text \<open>\<^verbatim>\<open>Math.ceil(x / 1000)\<close> on an integer \<open>x\<close>.\<close>

definition ceil_div_1000 :: "int \<Rightarrow> int" where
  "ceil_div_1000 x = - ((- x) div 1000)"

definition createIpRateLimiter ::
  "store_ref \<Rightarrow> int \<Rightarrow> int \<Rightarrow> string \<Rightarrow> 'a request_scheme \<Rightarrow> int \<Rightarrow> heap \<Rightarrow> heap \<times> mw" where
  "createIpRateLimiter store maxRequests windowMs message req now h =
     (let ip = getIp req;
          s = clearExpired (h store) now windowMs;
          fresh = (h(store := s(ip \<mapsto> \<lparr>count = 1, windowStart = now\<rparr>)), Next)
      in case s ip of
           None \<Rightarrow> fresh
         | Some existing \<Rightarrow>
             if now - windowStart existing \<ge> windowMs then fresh
             else
               let existing' = existing\<lparr>count := count existing + 1\<rparr>;
                   h' = h(store := s(ip \<mapsto> existing'))
               in if count existing' > maxRequests then
                    (let retryAfterSeconds =
                           ceil_div_1000 (windowMs - (now - windowStart existing'))
                     in (h', Reply (SendRetry 429 (max retryAfterSeconds 1) message)))
                  else (h', Next))"

text \<open>The server handles requests one after another; each is a request and its clock reading.\<close>

fun serve_limiter ::
  "store_ref \<Rightarrow> int \<Rightarrow> int \<Rightarrow> string \<Rightarrow> ('a request_scheme \<times> int) list \<Rightarrow> heap \<Rightarrow> heap" where
  "serve_limiter store n w m [] h = h"
| "serve_limiter store n w m (r # rs) h =
     serve_limiter store n w m rs (fst (createIpRateLimiter store n w m (fst r) (snd r) h))"

section \<open>Server state, the two limiters and the concurrency gate\<close>

text \<open>
  The limits come from the environment. \<open>released\<close> holds the \<^verbatim>\<open>released\<close> flag of
  every \<^verbatim>\<open>release\<close> closure created so far, in order of admission: job \<open>j\<close> is the
  request whose closure owns flag \<open>j\<close>.
\<close>

record config =
  WINDOW_MS :: int
  MAX_REQUESTS_PER_WINDOW :: int
  HEAVY_MAX_REQUESTS_PER_WINDOW :: int
  MAX_CONCURRENT_JOBS :: int

definition default_config :: config where
  "default_config =
     \<lparr>WINDOW_MS = 15 * 60 * 1000, MAX_REQUESTS_PER_WINDOW = 60,
      HEAVY_MAX_REQUESTS_PER_WINDOW = 10, MAX_CONCURRENT_JOBS = 2\<rparr>"

record server =
  stores :: heap
  activeHeavyJobs :: int
  released :: "bool list"

definition initial_server :: server where
  "initial_server = \<lparr>stores = (\<lambda>r. Map.empty), activeHeavyJobs = 0, released = []\<rparr>"

definition on_store ::
  "(heap \<Rightarrow> heap \<times> mw) \<Rightarrow> server \<Rightarrow> server \<times> mw" where
  "on_store f srv = (case f (stores srv) of (h, r) \<Rightarrow> (srv\<lparr>stores := h\<rparr>, r))"

definition globalRateLimit :: "config \<Rightarrow> 'a request_scheme \<Rightarrow> int \<Rightarrow> server \<Rightarrow> server \<times> mw" where
  "globalRateLimit cfg req now =
     on_store (createIpRateLimiter GlobalIpHits (MAX_REQUESTS_PER_WINDOW cfg) (WINDOW_MS cfg)
                 ''Too many requests. Please try again later.'' req now)"

definition heavyRouteRateLimit :: "config \<Rightarrow> 'a request_scheme \<Rightarrow> int \<Rightarrow> server \<Rightarrow> server \<times> mw" where
  "heavyRouteRateLimit cfg req now =
     on_store (createIpRateLimiter HeavyIpHits (HEAVY_MAX_REQUESTS_PER_WINDOW cfg) (WINDOW_MS cfg)
                 ''Too many conversion requests. Please wait and retry.'' req now)"

datatype gate = Admitted nat | Busy reply

definition limitConcurrentHeavyJobs :: "config \<Rightarrow> server \<Rightarrow> server \<times> gate" where
  "limitConcurrentHeavyJobs cfg srv =
     (if activeHeavyJobs srv \<ge> MAX_CONCURRENT_JOBS cfg
      then (srv, Busy (SendRetry 429 10 ''Server is busy. Please retry shortly.''))
      else (srv\<lparr>activeHeavyJobs := activeHeavyJobs srv + 1,
                 released := released srv @ [False]\<rparr>,
            Admitted (length (released srv))))"

text \<open>
  The closure \<^verbatim>\<open>release\<close> of job \<open>j\<close>. It exists only for an admitted job, so a
  number that names no closure does nothing.
\<close>

definition release :: "nat \<Rightarrow> server \<Rightarrow> server" where
  "release j srv =
     (if j \<ge> length (released srv) then srv
      else if released srv ! j then srv
      else srv\<lparr>released := (released srv)[j := True],
                activeHeavyJobs := max (activeHeavyJobs srv - 1) 0\<rparr>)"

text \<open>Both \<^verbatim>\<open>res.on('finish', release)\<close> and \<^verbatim>\<open>res.on('close', release)\<close>.\<close>

datatype res_event = Finish nat | Close nat

fun emit :: "res_event \<Rightarrow> server \<Rightarrow> server" where
  "emit (Finish j) srv = release j srv"
| "emit (Close j) srv = release j srv"

fun job_of :: "res_event \<Rightarrow> nat" where
  "job_of (Finish j) = j"
| "job_of (Close j) = j"

text \<open>What happens at the gate over time: admission attempts and response events.\<close>

datatype gate_action = Attempt | Event res_event

fun gate_step :: "config \<Rightarrow> gate_action \<Rightarrow> server \<Rightarrow> server" where
  "gate_step cfg Attempt srv = fst (limitConcurrentHeavyJobs cfg srv)"
| "gate_step cfg (Event e) srv = emit e srv"

fun gate_run :: "config \<Rightarrow> gate_action list \<Rightarrow> server \<Rightarrow> server" where
  "gate_run cfg [] srv = srv"
| "gate_run cfg (a # as) srv = gate_run cfg as (gate_step cfg a srv)"

fun attempts :: "config \<Rightarrow> nat \<Rightarrow> server \<Rightarrow> gate list \<times> server" where
  "attempts cfg 0 srv = ([], srv)"
| "attempts cfg (Suc k) srv =
     (case limitConcurrentHeavyJobs cfg srv of
        (srv', g) \<Rightarrow> (case attempts cfg k srv' of (gs, srv'') \<Rightarrow> (g # gs, srv'')))"

text \<open>
  The two limiters side by side, and the server taking one limiter invocation after another.
\<close>

datatype limiter = Global | Heavy

fun store_of :: "limiter \<Rightarrow> store_ref" where
  "store_of Global = GlobalIpHits"
| "store_of Heavy = HeavyIpHits"

fun rateLimit :: "limiter \<Rightarrow> config \<Rightarrow> 'a request_scheme \<Rightarrow> int \<Rightarrow> server \<Rightarrow> server \<times> mw" where
  "rateLimit Global = globalRateLimit"
| "rateLimit Heavy = heavyRouteRateLimit"

fun serve :: "config \<Rightarrow> (limiter \<times> 'a request_scheme \<times> int) list \<Rightarrow> server \<Rightarrow> server" where
  "serve cfg [] srv = srv"
| "serve cfg (r # rs) srv =
     serve cfg rs (fst (rateLimit (fst r) cfg (fst (snd r)) (snd (snd r)) srv))"

section \<open>The file system seen through \<^verbatim>\<open>fs\<close>\<close>

text \<open>
  A path names a regular file or a directory; each carries the size that \<^verbatim>\<open>stat\<close>
  reports, a directory also the names of its entries. Permissions are not modelled.
  A call that throws leaves the file system as it was.
\<close>

datatype node = File nat | Dir nat "string list"

type_synonym fsys = "string \<rightharpoonup> node"

datatype fs_error = ENOENT | EISDIR | ENOTDIR | EEXIST

definition existsSync :: "fsys \<Rightarrow> string \<Rightarrow> bool" where
  "existsSync fs p = (fs p \<noteq> None)"

definition unlinkSync :: "fsys \<Rightarrow> string \<Rightarrow> fs_error + fsys" where
  "unlinkSync fs p =
     (case fs p of
        None \<Rightarrow> Inl ENOENT
      | Some (File n) \<Rightarrow> Inr (fs(p := None))
      | Some (Dir n es) \<Rightarrow> Inl EISDIR)"

text \<open>\<^verbatim>\<open>fs.rmSync(p, { recursive: true, force: true })\<close>.\<close>

definition rmSync :: "fsys \<Rightarrow> string \<Rightarrow> fs_error + fsys" where
  "rmSync fs p = Inr (fs(p := None))"

definition mkdirSync :: "fsys \<Rightarrow> string \<Rightarrow> fs_error + fsys" where
  "mkdirSync fs p = (case fs p of None \<Rightarrow> Inr (fs(p \<mapsto> Dir 0 [])) | Some n \<Rightarrow> Inl EEXIST)"

text \<open>\<^verbatim>\<open>fs.statSync(p).size\<close>.\<close>

definition statSync :: "fsys \<Rightarrow> string \<Rightarrow> fs_error + nat" where
  "statSync fs p =
     (case fs p of
        None \<Rightarrow> Inl ENOENT
      | Some (File n) \<Rightarrow> Inr n
      | Some (Dir n es) \<Rightarrow> Inr n)"

definition readdirSync :: "fsys \<Rightarrow> string \<Rightarrow> fs_error + string list" where
  "readdirSync fs p =
     (case fs p of
        None \<Rightarrow> Inl ENOENT
      | Some (File n) \<Rightarrow> Inl ENOTDIR
      | Some (Dir n es) \<Rightarrow> Inr es)"

section \<open>Numbers\<close>

text \<open>
  A JavaScript number is \<^verbatim>\<open>NaN\<close>, an infinity or a finite value. Division by zero
  and comparison with \<^verbatim>\<open>NaN\<close> are as IEEE 754 has them; a zero is the positive zero
  (a file size is never the negative one); the quotient of two finite numbers is taken
  exactly, without rounding.
\<close>

datatype jsnum = NaN | PosInf | NegInf | Num real

fun js_div :: "jsnum \<Rightarrow> jsnum \<Rightarrow> jsnum" where
  "js_div (Num x) (Num y) =
     (if y = 0 then (if x = 0 then NaN else if x > 0 then PosInf else NegInf)
      else Num (x / y))"
| "js_div (Num x) PosInf = Num 0"
| "js_div (Num x) NegInf = Num 0"
| "js_div PosInf (Num y) = (if y \<ge> 0 then PosInf else NegInf)"
| "js_div NegInf (Num y) = (if y \<ge> 0 then NegInf else PosInf)"
| "js_div x y = NaN"

fun js_lt :: "jsnum \<Rightarrow> jsnum \<Rightarrow> bool" where
  "js_lt NaN y = False"
| "js_lt x NaN = False"
| "js_lt (Num x) (Num y) = (x < y)"
| "js_lt NegInf NegInf = False"
| "js_lt NegInf y = True"
| "js_lt x PosInf = (x \<noteq> PosInf)"
| "js_lt x y = False"

fun js_ge :: "jsnum \<Rightarrow> jsnum \<Rightarrow> bool" where
  "js_ge NaN y = False"
| "js_ge x NaN = False"
| "js_ge x y = (\<not> js_lt x y)"

definition js_gt :: "jsnum \<Rightarrow> jsnum \<Rightarrow> bool" where
  "js_gt x y = js_lt y x"

section \<open>Helper functions\<close>

text \<open>The \<^verbatim>\<open>try\<close> block returns the size in megabytes; the \<^verbatim>\<open>catch\<close> returns 0.\<close>

definition getFileSizeMB :: "fsys \<Rightarrow> string \<Rightarrow> fs_error + jsnum" where
  "getFileSizeMB fs path =
     (case statSync fs path of
        Inr stats_size \<Rightarrow> Inr (Num (real stats_size / (1024 * 1024)))
      | Inl e \<Rightarrow> Inr (Num 0))"

text \<open>
  The three statements of the \<^verbatim>\<open>try\<close> block of \<^verbatim>\<open>cleanup\<close>, in order. The result
  is the file system when the block ends and the exception that ended it, if any.
\<close>

definition guarded ::
  "(fsys \<Rightarrow> string \<Rightarrow> fs_error + fsys) \<Rightarrow> string option \<Rightarrow> fsys \<Rightarrow> fs_error + fsys" where
  "guarded remove p fs =
     (if truthy p \<and> existsSync fs (the p) then remove fs (the p) else Inr fs)"

definition cleanup_try ::
  "string option \<Rightarrow> string option \<Rightarrow> string option \<Rightarrow> fsys \<Rightarrow> fsys \<times> fs_error option" where
  "cleanup_try input output extraDir fs =
     (case guarded unlinkSync input fs of
        Inl e \<Rightarrow> (fs, Some e)
      | Inr fs1 \<Rightarrow>
          (case guarded unlinkSync output fs1 of
             Inl e \<Rightarrow> (fs1, Some e)
           | Inr fs2 \<Rightarrow>
               (case guarded rmSync extraDir fs2 of
                  Inl e \<Rightarrow> (fs2, Some e)
                | Inr fs3 \<Rightarrow> (fs3, None))))"

text \<open>
  \<^verbatim>\<open>cleanup\<close>: the \<^verbatim>\<open>catch\<close> prints a warning and returns. \<open>Inl\<close> would be an
  exception reaching the caller; \<open>Inr (fs, w)\<close> is a normal return with the file system
  left behind and the warning printed, if any.
\<close>

definition cleanup ::
  "string option \<Rightarrow> string option \<Rightarrow> string option \<Rightarrow> fsys \<Rightarrow> fs_error + (fsys \<times> fs_error option)" where
  "cleanup input output extraDir fs =
     (case cleanup_try input output extraDir fs of
        (fs', None) \<Rightarrow> Inr (fs', None)
      | (fs', Some e) \<Rightarrow> Inr (fs', Some e))"

text \<open>\<^verbatim>\<open>toLowerCase\<close> and \<^verbatim>\<open>includes\<close> on ASCII text.\<close>

definition lower_char :: "char \<Rightarrow> char" where
  "lower_char c =
     (case map_of (zip ''ABCDEFGHIJKLMNOPQRSTUVWXYZ'' ''abcdefghijklmnopqrstuvwxyz'') c of
        Some l \<Rightarrow> l
      | None \<Rightarrow> c)"

definition toLowerCase :: "string \<Rightarrow> string" where
  "toLowerCase s = map lower_char s"

definition str_includes :: "string \<Rightarrow> string \<Rightarrow> bool" where
  "str_includes s m = sublist m s"

definition checkPasswordError :: "string \<Rightarrow> string \<Rightarrow> bool" where
  "checkPasswordError stderr stdout =
     (let output = toLowerCase (stderr @ stdout)
      in str_includes output ''password'' \<or> str_includes output ''encrypted''
         \<or> str_includes output ''this file requires a password'')"

section \<open>Routes\<close>

text \<open>
  A request to a heavy route as the handler sees it after \<^verbatim>\<open>upload.single('pdfFile')\<close>:
  \<^verbatim>\<open>req.file\<close> (absent when nothing was uploaded) and the text fields of
  \<^verbatim>\<open>req.body\<close>.
\<close>

record upload =
  file_path :: string
  filename :: string

record heavy_request = request +
  req_file :: "upload option"
  body_password :: "string option"
  body_mode :: "string option"
  body_format :: "string option"
  body_value :: "string option"

text \<open>
  A handler answers at once or hands a command to \<^verbatim>\<open>exec\<close>; an \<^verbatim>\<open>exec\<close>
  callback answers at once or starts the archiver on a zip path.
\<close>

datatype step = Done reply | Exec string | Archive string

text \<open>The status that the code sets on the response, if it sets one.\<close>

fun sent_status :: "step \<Rightarrow> nat option" where
  "sent_status (Done (Send s b)) = Some s"
| "sent_status (Done (SendRetry s n b)) = Some s"
| "sent_status x = None"

definition quoted :: "string \<Rightarrow> string" where
  "quoted s = [CHR 0x22] @ s @ [CHR 0x22]"

text \<open>\<^verbatim>\<open>x || d\<close> on a string that may be missing.\<close>

definition or_default :: "string option \<Rightarrow> string \<Rightarrow> string" where
  "or_default x d = (if truthy x then the x else d)"

definition replying ::
  "reply \<Rightarrow> fs_error + (fsys \<times> fs_error option) \<Rightarrow> fs_error + (step \<times> fsys)" where
  "replying r c = (case c of Inl e \<Rightarrow> Inl e | Inr (fs', w) \<Rightarrow> Inr (Done r, fs'))"

subsection \<open>Convert\<close>

definition convert_handler ::
  "'a heavy_request_scheme \<Rightarrow> fsys \<Rightarrow> fs_error + (step \<times> fsys)" where
  "convert_handler req fs =
     (case req_file req of
        None \<Rightarrow> Inr (Done (Send 400 ''No file uploaded.''), fs)
      | Some f \<Rightarrow>
          (let inputPath = file_path f;
               outputPath = ''uploads/output_'' @ filename f @ ''.pdf'';
               password = or_default (body_password req) [];
               passFlag = (if password \<noteq> [] then ''-sPDFPassword='' @ quoted password else []);
               gsCommand =
                 ''gs -dSAFER -dBATCH -dNOPAUSE -dNOCACHE -sDEVICE=pdfwrite -sColorConversionStrategy=CMYK -dProcessColorModel=/DeviceCMYK ''
                 @ passFlag @ '' -sOutputFile='' @ quoted outputPath @ '' '' @ quoted inputPath
           in Inr (Exec gsCommand, fs)))"

definition convert_callback ::
  "string \<Rightarrow> string \<Rightarrow> string option \<Rightarrow> string \<Rightarrow> string \<Rightarrow> fsys \<Rightarrow> fs_error + (step \<times> fsys)" where
  "convert_callback inputPath outputPath error stdout stderr fs =
     (if checkPasswordError stderr stdout then
        replying (Send 401 ''PASSWORD_REQUIRED'') (cleanup (Some inputPath) (Some outputPath) None fs)
      else if error \<noteq> None then
        replying (Send 500 ''Error converting file.'') (cleanup (Some inputPath) (Some outputPath) None fs)
      else Inr (Done (Download outputPath ''converted-cmyk.pdf''), fs))"

subsection \<open>Compress\<close>

text \<open>The strategy logic: the Ghostscript profile chosen from the mode and the parsed value.\<close>

definition gsSettings ::
  "string option \<Rightarrow> jsnum \<Rightarrow> jsnum \<Rightarrow> string" where
  "gsSettings mode val originalSize =
     (if mode = Some ''target'' then
        (let requiredRatio = js_div val originalSize
         in if js_ge requiredRatio (Num 1) then ''/printer''
            else if js_lt requiredRatio (Num 0.2) then ''/screen''
            else if js_lt requiredRatio (Num 0.6) then ''/ebook''
            else ''/printer'')
      else if mode = Some ''percentage'' then
        (if js_gt val (Num 75) then ''/prepress''
         else if js_gt val (Num 50) then ''/printer''
         else if js_gt val (Num 25) then ''/ebook''
         else ''/screen'')
      else ''/ebook'')"

definition compress_command :: "string \<Rightarrow> string \<Rightarrow> string \<Rightarrow> string \<Rightarrow> string" where
  "compress_command settings passFlag outputPath inputPath =
     ''gs -dSAFER -dBATCH -dNOPAUSE -dNOCACHE -sDEVICE=pdfwrite -dCompatibilityLevel=1.4 -dPDFSETTINGS=''
     @ settings @ '' '' @ passFlag @ '' -sOutputFile='' @ quoted outputPath @ '' '' @ quoted inputPath"

text \<open>\<open>parseFloat\<close> is the built-in of that name, applied to \<^verbatim>\<open>req.body.value\<close>.\<close>

definition compress_handler ::
  "(string option \<Rightarrow> jsnum) \<Rightarrow> 'a heavy_request_scheme \<Rightarrow> fsys \<Rightarrow> fs_error + (step \<times> fsys)" where
  "compress_handler parseFloat req fs =
     (case req_file req of
        None \<Rightarrow> Inr (Done (Send 400 ''No file uploaded.''), fs)
      | Some f \<Rightarrow>
          (let inputPath = file_path f;
               outputPath = ''uploads/compressed_'' @ filename f @ ''.pdf''
           in case getFileSizeMB fs inputPath of
                Inl e \<Rightarrow> Inl e
              | Inr originalSize \<Rightarrow>
                  (let mode = body_mode req;
                       val = parseFloat (body_value req);
                       password = or_default (body_password req) [];
                       settings = gsSettings mode val originalSize;
                       passFlag = (if password \<noteq> [] then ''-sPDFPassword='' @ quoted password else [])
                   in Inr (Exec (compress_command settings passFlag outputPath inputPath), fs))))"

text \<open>
  On success the two size headers are set before the download; they do not change the
  outcome and are left out of the reply.
\<close>

definition compress_callback ::
  "string \<Rightarrow> string \<Rightarrow> string option \<Rightarrow> string \<Rightarrow> string \<Rightarrow> fsys \<Rightarrow> fs_error + (step \<times> fsys)" where
  "compress_callback inputPath outputPath error stdout stderr fs =
     (if checkPasswordError stderr stdout then
        replying (Send 401 ''PASSWORD_REQUIRED'') (cleanup (Some inputPath) (Some outputPath) None fs)
      else if error \<noteq> None then
        replying (Send 500 ''Compression failed.'') (cleanup (Some inputPath) (Some outputPath) None fs)
      else (case getFileSizeMB fs outputPath of
              Inl e \<Rightarrow> Inl e
            | Inr newSize \<Rightarrow> Inr (Done (Download outputPath ''compressed.pdf''), fs)))"

subsection \<open>Extract\<close>

text \<open>\<open>stamp\<close> is the decimal text of \<^verbatim>\<open>Date.now()\<close>.\<close>

definition extract_command :: "string \<Rightarrow> string \<Rightarrow> string \<Rightarrow> string \<Rightarrow> string \<Rightarrow> string" where
  "extract_command mode fmt password inputPath outputPrefix =
     (if mode = ''pages'' then
        (let device = (if fmt = ''tiff'' then ''tiff24nc''
                       else if fmt = ''jpg'' then ''jpeg'' else ''png16m'');
             outputFile = outputPrefix @ ''-%03d.'' @ fmt;
             passFlag = (if password \<noteq> [] then ''-sPDFPassword='' @ quoted password else [])
         in ''gs -dSAFER -dBATCH -dNOPAUSE -sDEVICE='' @ device @ '' '' @ passFlag
            @ '' -r150 -sOutputFile='' @ quoted outputFile @ '' '' @ quoted inputPath)
      else
        (let formatFlag = (if fmt = ''tiff'' then ''-tiff''
                           else if fmt = ''jpg'' then ''-j'' else ''-png'');
             passFlag = (if password \<noteq> [] then ''-upw '' @ quoted password else [])
         in ''pdfimages '' @ formatFlag @ '' '' @ passFlag @ '' '' @ quoted inputPath
            @ '' '' @ quoted outputPrefix))"

definition extract_handler ::
  "string \<Rightarrow> 'a heavy_request_scheme \<Rightarrow> fsys \<Rightarrow> fs_error + (step \<times> fsys)" where
  "extract_handler stamp req fs =
     (case req_file req of
        None \<Rightarrow> Inr (Done (Send 400 ''No file uploaded.''), fs)
      | Some f \<Rightarrow>
          (let inputPath = file_path f;
               outputDir = ''uploads/extract_'' @ stamp
           in case (if \<not> existsSync fs outputDir then mkdirSync fs outputDir else Inr fs) of
                Inl e \<Rightarrow> Inl e
              | Inr fs' \<Rightarrow>
                  (let mode = or_default (body_mode req) ''images'';
                       fmt = or_default (body_format req) ''png'';
                       password = or_default (body_password req) [];
                       outputPrefix = outputDir @ ''/output''
                   in Inr (Exec (extract_command mode fmt password inputPath outputPrefix), fs'))))"

definition extract_callback ::
  "string \<Rightarrow> string \<Rightarrow> string \<Rightarrow> string option \<Rightarrow> string \<Rightarrow> string \<Rightarrow> fsys
     \<Rightarrow> fs_error + (step \<times> fsys)" where
  "extract_callback mode inputPath outputDir error stdout stderr fs =
     (if checkPasswordError stderr stdout then
        replying (Send 401 ''PASSWORD_REQUIRED'') (cleanup (Some inputPath) None (Some outputDir) fs)
      else if error \<noteq> None then
        replying (Send 500 ''Processing failed.'') (cleanup (Some inputPath) None (Some outputDir) fs)
      else (case readdirSync fs outputDir of
              Inl e \<Rightarrow> Inl e
            | Inr extractedFiles \<Rightarrow>
                if length extractedFiles = 0 then
                  replying
                    (Send 422 (if mode = ''images''
                               then ''No embedded images found. Try '' @ quoted ''Extract Pages'' @ '' instead.''
                               else ''Could not render pages.''))
                    (cleanup (Some inputPath) None (Some outputDir) fs)
                else Inr (Archive (outputDir @ ''.zip''), fs)))"

text \<open>The two events of the archiver: the zip is written, or the archiver fails.\<close>

definition extract_archive_close :: "string \<Rightarrow> string \<Rightarrow> string \<Rightarrow> reply" where
  "extract_archive_close mode fmt zipPath =
     Download zipPath (if mode = ''pages'' then ''pages_'' @ fmt @ ''.zip''
                       else ''images_'' @ fmt @ ''.zip'')"

definition extract_archive_error ::
  "string \<Rightarrow> string \<Rightarrow> string \<Rightarrow> fsys \<Rightarrow> fs_error + (step \<times> fsys)" where
  "extract_archive_error inputPath zipPath outputDir fs =
     replying (Send 500 ''Zip creation failed.'')
       (cleanup (Some inputPath) (Some zipPath) (Some outputDir) fs)"

subsection \<open>Unlock\<close>

definition unlock_handler ::
  "'a heavy_request_scheme \<Rightarrow> fsys \<Rightarrow> fs_error + (step \<times> fsys)" where
  "unlock_handler req fs =
     (case req_file req of
        None \<Rightarrow> Inr (Done (Send 400 ''No file uploaded.''), fs)
      | Some f \<Rightarrow>
          (let inputPath = file_path f;
               outputPath = ''uploads/unlocked_'' @ filename f @ ''.pdf'';
               password = body_password req
           in if \<not> truthy password then
                replying (Send 400 ''Password is required.'') (cleanup (Some inputPath) None None fs)
              else
                Inr (Exec (''gs -q -dNOPAUSE -dBATCH -sDEVICE=pdfwrite -sPDFPassword=''
                           @ quoted (the password) @ '' -sOutputFile='' @ quoted outputPath
                           @ '' '' @ quoted inputPath), fs)))"

definition unlock_callback ::
  "string \<Rightarrow> string \<Rightarrow> string option \<Rightarrow> string \<Rightarrow> string \<Rightarrow> fsys \<Rightarrow> fs_error + (step \<times> fsys)" where
  "unlock_callback inputPath outputPath error stdout stderr fs =
     (if error \<noteq> None \<or> str_includes (toLowerCase stderr) ''password'' then
        replying (Send 401 ''Incorrect Password or File Error'')
          (cleanup (Some inputPath) (Some outputPath) None fs)
      else Inr (Done (Download outputPath ''unlocked.pdf''), fs))"

subsection \<open>The middleware chain of a heavy route\<close>

text \<open>
  \<^verbatim>\<open>app.use(globalRateLimit)\<close>, then the chain given to \<^verbatim>\<open>app.post\<close>:
  \<^verbatim>\<open>heavyRouteRateLimit, limitConcurrentHeavyJobs, upload.single('pdfFile')\<close> and the
  handler. \<open>Handled j s\<close>: the handler of job \<open>j\<close> ran and took step \<open>s\<close>;
  \<open>Threw j e\<close>: it threw. The upload middleware is taken to succeed: it has stored the
  file, if there is one, and set \<^verbatim>\<open>req.file\<close> before the handler runs.
\<close>

datatype routed = Rejected reply | Handled nat step | Threw nat fs_error

definition heavy_route ::
  "config \<Rightarrow> ('a heavy_request_scheme \<Rightarrow> fsys \<Rightarrow> fs_error + (step \<times> fsys))
     \<Rightarrow> 'a heavy_request_scheme \<Rightarrow> int \<Rightarrow> server \<times> fsys \<Rightarrow> routed \<times> server \<times> fsys" where
  "heavy_route cfg handler req now st =
     (case st of (srv, fs) \<Rightarrow>
        (case globalRateLimit cfg req now srv of
           (srv1, Reply r) \<Rightarrow> (Rejected r, srv1, fs)
         | (srv1, Next) \<Rightarrow>
             (case heavyRouteRateLimit cfg req now srv1 of
                (srv2, Reply r) \<Rightarrow> (Rejected r, srv2, fs)
              | (srv2, Next) \<Rightarrow>
                  (case limitConcurrentHeavyJobs cfg srv2 of
                     (srv3, Busy r) \<Rightarrow> (Rejected r, srv3, fs)
                   | (srv3, Admitted j) \<Rightarrow>
                       (case handler req fs of
                          Inl e \<Rightarrow> (Threw j e, srv3, fs)
                        | Inr (s, fs') \<Rightarrow> (Handled j s, srv3, fs'))))))"

datatype route = Convert | Compress | Extract | Unlock

text \<open>The four \<^verbatim>\<open>app.post\<close> routes.\<close>

fun post ::
  "route \<Rightarrow> config \<Rightarrow> (string option \<Rightarrow> jsnum) \<Rightarrow> string \<Rightarrow> 'a heavy_request_scheme \<Rightarrow> int
     \<Rightarrow> server \<times> fsys \<Rightarrow> routed \<times> server \<times> fsys" where
  "post Convert cfg parseFloat stamp = heavy_route cfg convert_handler"
| "post Compress cfg parseFloat stamp = heavy_route cfg (compress_handler parseFloat)"
| "post Extract cfg parseFloat stamp = heavy_route cfg (extract_handler stamp)"
| "post Unlock cfg parseFloat stamp = heavy_route cfg unlock_handler"

text \<open>The \<^verbatim>\<open>exec\<close> callback of each route; \<open>out\<close> is its output file or directory.\<close>

fun callback ::
  "route \<Rightarrow> string \<Rightarrow> string \<Rightarrow> string \<Rightarrow> string option \<Rightarrow> string \<Rightarrow> string \<Rightarrow> fsys
     \<Rightarrow> fs_error + (step \<times> fsys)" where
  "callback Convert mode inputPath out = convert_callback inputPath out"
| "callback Compress mode inputPath out = compress_callback inputPath out"
| "callback Extract mode inputPath out = extract_callback mode inputPath out"
| "callback Unlock mode inputPath out = unlock_callback inputPath out"

text \<open>The status, if any, that an \<^verbatim>\<open>exec\<close> callback has set when it returns.\<close>

definition replied_status :: "fs_error + (step \<times> fsys) \<Rightarrow> nat option" where
  "replied_status c = (case c of Inl e \<Rightarrow> None | Inr (s, fs) \<Rightarrow> sent_status s)"

text \<open>
  What holds of the gate in every state the server reaches: the counter is the number of
  admitted jobs whose flag is still unset, and it is 0 or at most the limit.
\<close>

definition gate_inv :: "config \<Rightarrow> server \<Rightarrow> bool" where
  "gate_inv cfg srv =
     (activeHeavyJobs srv = int (length (filter Not (released srv)))
      \<and> (activeHeavyJobs srv = 0 \<or> activeHeavyJobs srv \<le> MAX_CONCURRENT_JOBS cfg))"

section \<open>Sample inputs\<close>

abbreviation client_a :: request where
  "client_a \<equiv> \<lparr>req_ip = Some ''10.0.0.1'', remoteAddress = None\<rparr>"

abbreviation no_upload :: heavy_request where
  "no_upload \<equiv> \<lparr>req_ip = Some ''10.0.0.1'', remoteAddress = None, req_file = None,
     body_password = None, body_mode = None, body_format = None, body_value = None\<rparr>"

abbreviation staged :: fsys where
  "staged \<equiv> [''uploads/3f9a'' \<mapsto> File 52311, ''uploads/extract_1700000000000'' \<mapsto> Dir 4096 []]"


abbreviation unstaged :: heavy_request where
  "unstaged \<equiv> \<lparr>req_ip = Some ''10.0.0.1'', remoteAddress = None,
     req_file = Some \<lparr>file_path = ''uploads/77c0'', filename = ''77c0''\<rparr>,
     body_password = None, body_mode = Some ''target'', body_format = None,
     body_value = Some ''3''\<rparr>"

section \<open>The limiter, one request at a time\<close>

lemma ceil_div_1000_ceiling: "ceil_div_1000 x = \<lceil>real_of_int x / 1000\<rceil>"
proof -
  have "\<lceil>(of_int x :: real) / of_int 1000\<rceil> = - (- x div 1000)"
    by (rule ceiling_divide_eq_div)
  then show ?thesis by (simp add: ceil_div_1000_def)
qed

lemma limiter_fresh:
  assumes "h store (getIp req) = None \<or>
           (\<exists>b. h store (getIp req) = Some b \<and> now - windowStart b \<ge> w)"
  shows "createIpRateLimiter store n w m req now h =
           (h(store := (clearExpired (h store) now w)(getIp req \<mapsto> \<lparr>count = 1, windowStart = now\<rparr>)), Next)"
  using assms by (auto simp: createIpRateLimiter_def clearExpired_def Let_def)

lemma limiter_within:
  assumes "h store (getIp req) = Some b" and "now - windowStart b < w"
  shows "createIpRateLimiter store n w m req now h =
           (h(store := (clearExpired (h store) now w)(getIp req \<mapsto> b\<lparr>count := count b + 1\<rparr>)),
            if count b + 1 > n
            then Reply (SendRetry 429 (max (ceil_div_1000 (w - (now - windowStart b))) 1) m)
            else Next)"
  using assms by (simp add: createIpRateLimiter_def clearExpired_def Let_def)


lemma limiter_other:
  assumes "getIp req \<noteq> k"
  shows "fst (createIpRateLimiter store n w m req now h) store k = clearExpired (h store) now w k"
  using assms by (auto simp: createIpRateLimiter_def Let_def split: option.splits)

lemma limiter_frame:
  assumes "store' \<noteq> store"
  shows "fst (createIpRateLimiter store n w m req now h) store' = h store'"
  using assms by (auto simp: createIpRateLimiter_def Let_def split: option.splits)

lemma serve_limiter_window:
  assumes "h store ip = Some b" and "\<forall>r\<in>set rs. snd r - windowStart b < w"
  shows "serve_limiter store n w m rs h store ip =
           Some (b\<lparr>count := count b + int (length (filter (\<lambda>r. getIp (fst r) = ip) rs))\<rparr>)"
  using assms
proof (induction rs arbitrary: h b)
  case Nil
  then show ?case by simp
next
  case (Cons r rs)
  let ?h' = "fst (createIpRateLimiter store n w m (fst r) (snd r) h)"
  have within: "snd r - windowStart b < w" using Cons.prems(2) by simp
  show ?case
  proof (cases "getIp (fst r) = ip")
    case True
    have "?h' store ip = Some (b\<lparr>count := count b + 1\<rparr>)"
      using limiter_within [where h=h and store=store and req="fst r" and b=b and now="snd r" and w=w and n=n and m=m] Cons.prems(1) within True
      by simp
    from Cons.IH [where h="?h'" and b="b\<lparr>count := count b + 1\<rparr>"] this Cons.prems(2) True
    show ?thesis by simp
  next
    case False
    have "?h' store ip = Some b"
      using limiter_other [OF False] Cons.prems(1) within
      by (simp add: clearExpired_def)
    from Cons.IH [where h="?h'" and b=b] this Cons.prems(2) False show ?thesis by simp
  qed
qed

text \<open>
  Claim C1, as the code has it. A request of a client with no bucket, or with a bucket whose
  window has elapsed (\<open>now - windowStart \<ge> W\<close>), is let through and leaves the bucket
  \<open>{count: 1, windowStart: now}\<close>. Any other request adds one to the count and is
  refused exactly when the new count exceeds \<open>N\<close>, with status 429 and a Retry-After of
  \<open>ceil((W - (now - windowStart)) / 1000)\<close>, at least 1. Hence, after a request that opens
  a window, and whatever requests of any clients follow with clock readings inside that window,
  the next request of the same client inside the window is refused exactly when the client
  has by then made at least \<open>N\<close> requests in the window; in particular the
  \<open>(N+1)\<close>-th is refused whenever \<open>N \<ge> 1\<close>. The first request of a window is
  always let through, also when \<open>N\<close> is 0 or negative.
\<close>

theorem C1_fixed_window:
  "(h store (getIp req) = None \<or> (\<exists>b. h store (getIp req) = Some b \<and> w \<le> now - windowStart b)
      \<longrightarrow> snd (createIpRateLimiter store n w m req now h) = Next
          \<and> fst (createIpRateLimiter store n w m req now h) store (getIp req)
              = Some \<lparr>count = 1, windowStart = now\<rparr>)
   \<and> (\<forall>b. h store (getIp req) = Some b \<and> now - windowStart b < w \<longrightarrow>
          fst (createIpRateLimiter store n w m req now h) store (getIp req)
            = Some \<lparr>count = count b + 1, windowStart = windowStart b\<rparr>
        \<and> (snd (createIpRateLimiter store n w m req now h) \<noteq> Next \<longleftrightarrow> n < count b + 1)
        \<and> (n < count b + 1 \<longrightarrow>
             snd (createIpRateLimiter store n w m req now h)
               = Reply (SendRetry 429
                   (max \<lceil>real_of_int (w - (now - windowStart b)) / 1000\<rceil> 1) m)))
   \<and> (\<forall>(rs :: ('a request_scheme \<times> int) list) (req' :: 'a request_scheme) now'.
          (h store (getIp (req :: 'a request_scheme)) = None \<or> (\<exists>b. h store (getIp req) = Some b \<and> w \<le> now - windowStart b))
        \<and> (\<forall>r\<in>set rs. snd r - now < w)
        \<and> getIp req' = getIp req \<and> now' - now < w \<longrightarrow>
          (snd (createIpRateLimiter store n w m req' now'
                 (serve_limiter store n w m rs (fst (createIpRateLimiter store n w m req now h)))) \<noteq> Next
             \<longleftrightarrow> n < int (length (filter (\<lambda>r. getIp (fst r) = getIp req) rs)) + 2)
        \<and> (int (length (filter (\<lambda>r. getIp (fst r) = getIp req) rs)) + 1 = n \<longrightarrow>
             snd (createIpRateLimiter store n w m req' now'
                 (serve_limiter store n w m rs (fst (createIpRateLimiter store n w m req now h))))
               = Reply (SendRetry 429 (max \<lceil>real_of_int (w - (now' - now)) / 1000\<rceil> 1) m)))"
proof (intro conjI allI impI)
  assume a: "h store (getIp req) = None \<or> (\<exists>b. h store (getIp req) = Some b \<and> w \<le> now - windowStart b)"
  show "snd (createIpRateLimiter store n w m req now h) = Next"
    using limiter_fresh [where h=h and store=store and req=req and now=now and w=w and n=n and m=m] a by simp
  show "fst (createIpRateLimiter store n w m req now h) store (getIp req)
              = Some \<lparr>count = 1, windowStart = now\<rparr>"
    using limiter_fresh [where h=h and store=store and req=req and now=now and w=w and n=n and m=m] a by simp
next
  fix b assume a: "h store (getIp req) = Some b \<and> now - windowStart b < w"
  note L = limiter_within [where h=h and store=store and req=req and b=b and now=now and w=w and n=n and m=m]
  show "fst (createIpRateLimiter store n w m req now h) store (getIp req)
            = Some \<lparr>count = count b + 1, windowStart = windowStart b\<rparr>"
    using L a by simp
  show "(snd (createIpRateLimiter store n w m req now h) \<noteq> Next) = (n < count b + 1)"
    using L a by simp
  show "snd (createIpRateLimiter store n w m req now h)
               = Reply (SendRetry 429
                   (max \<lceil>real_of_int (w - (now - windowStart b)) / 1000\<rceil> 1) m)"
    if "n < count b + 1"
    using L a that by (simp add: ceil_div_1000_ceiling)
next
  fix rs :: "('a request_scheme \<times> int) list" and req' :: "'a request_scheme" and now'
  let ?h1 = "fst (createIpRateLimiter store n w m req now h)"
  let ?h2 = "serve_limiter store n w m rs ?h1"
  let ?k = "int (length (filter (\<lambda>r. getIp (fst r) = getIp req) rs))"
  assume a: "(h store (getIp req) = None \<or> (\<exists>b. h store (getIp req) = Some b \<and> w \<le> now - windowStart b))
        \<and> (\<forall>r\<in>set rs. snd r - now < w)
        \<and> getIp req' = getIp req \<and> now' - now < w"
  have h1: "?h1 store (getIp req) = Some \<lparr>count = 1, windowStart = now\<rparr>"
    using limiter_fresh [where h=h and store=store and req=req and now=now and w=w and n=n and m=m] a by simp
  have h2: "?h2 store (getIp req') = Some \<lparr>count = 1 + ?k, windowStart = now\<rparr>"
    using serve_limiter_window [where h="?h1" and store=store and ip="getIp req" and b="\<lparr>count = 1, windowStart = now\<rparr>" and rs=rs and w=w and n=n and m=m] h1 a
    by simp
  note L = limiter_within [where h="?h2" and store=store and req=req' and b="\<lparr>count = 1 + ?k, windowStart = now\<rparr>" and now=now' and w=w and n=n and m=m]
  show "(snd (createIpRateLimiter store n w m req' now' ?h2) \<noteq> Next) = (n < ?k + 2)"
    using L h2 a by simp
  show "snd (createIpRateLimiter store n w m req' now' ?h2)
               = Reply (SendRetry 429 (max \<lceil>real_of_int (w - (now' - now)) / 1000\<rceil> 1) m)"
    if "?k + 1 = n"
    using L h2 a that by (simp add: ceil_div_1000_ceiling)
qed


text \<open>
  The statement at work: limit 2, window 5000 ms, one client asking at 0, 10 and 20 ms.
\<close>

theorem C1_fixed_window_witness:
  "stores initial_server HeavyIpHits (getIp client_a) = None
   \<and> snd (createIpRateLimiter HeavyIpHits 2 5000 ''slow down'' client_a 0 (stores initial_server)) = Next
   \<and> snd (client_a, 10::int) - 0 < (5000::int)
   \<and> int (length (filter (\<lambda>r. getIp (fst r) = getIp client_a) [(client_a, 10::int)])) + 1 = 2
   \<and> snd (createIpRateLimiter HeavyIpHits 2 5000 ''slow down'' client_a 20
            (serve_limiter HeavyIpHits 2 5000 ''slow down'' [(client_a, 10)]
               (fst (createIpRateLimiter HeavyIpHits 2 5000 ''slow down'' client_a 0
                       (stores initial_server)))))
         = Reply (SendRetry 429 5 ''slow down'')
   \<and> fst (createIpRateLimiter HeavyIpHits 2 5000 ''slow down'' client_a 0 (stores initial_server))
         HeavyIpHits (getIp client_a) = Some \<lparr>count = 1, windowStart = 0\<rparr>
   \<and> snd (createIpRateLimiter HeavyIpHits 2 5000 ''slow down'' client_a 10
            (fst (createIpRateLimiter HeavyIpHits 2 5000 ''slow down'' client_a 0
                    (stores initial_server)))) = Next"
proof -
  let ?h0 = "stores initial_server"
  let ?h1 = "fst (createIpRateLimiter HeavyIpHits 2 5000 ''slow down'' client_a 0 ?h0)"
  have h0: "?h0 HeavyIpHits (getIp client_a) = None"
    by (simp add: initial_server_def)
  note T0 = C1_fixed_window [where h="?h0" and store=HeavyIpHits and n=2 and w=5000
      and m="''slow down''" and req=client_a and now=0]
  from T0 h0 have first: "snd (createIpRateLimiter HeavyIpHits 2 5000 ''slow down'' client_a 0 ?h0) = Next"
    and h1: "?h1 HeavyIpHits (getIp client_a) = Some \<lparr>count = 1, windowStart = 0\<rparr>"
    by blast+
  have rs: "\<forall>r\<in>set [(client_a, 10)]. snd r - 0 < (5000::int)"
    and k: "int (length (filter (\<lambda>r. getIp (fst r) = getIp client_a) [(client_a, 10::int)])) + 1 = 2"
    by simp_all
  from T0 have "\<forall>(rs :: (request \<times> int) list) (req' :: request) now'.
          (?h0 HeavyIpHits (getIp client_a) = None
             \<or> (\<exists>b. ?h0 HeavyIpHits (getIp client_a) = Some b \<and> 5000 \<le> 0 - windowStart b))
        \<and> (\<forall>r\<in>set rs. snd r - 0 < 5000)
        \<and> getIp req' = getIp client_a \<and> now' - 0 < 5000 \<longrightarrow>
          (snd (createIpRateLimiter HeavyIpHits 2 5000 ''slow down'' req' now'
                 (serve_limiter HeavyIpHits 2 5000 ''slow down'' rs ?h1)) \<noteq> Next
             \<longleftrightarrow> 2 < int (length (filter (\<lambda>r. getIp (fst r) = getIp client_a) rs)) + 2)
        \<and> (int (length (filter (\<lambda>r. getIp (fst r) = getIp client_a) rs)) + 1 = 2 \<longrightarrow>
             snd (createIpRateLimiter HeavyIpHits 2 5000 ''slow down'' req' now'
                 (serve_limiter HeavyIpHits 2 5000 ''slow down'' rs ?h1))
               = Reply (SendRetry 429 (max \<lceil>real_of_int (5000 - (now' - 0)) / 1000\<rceil> 1) ''slow down''))"
    by blast
  from this [rule_format, of "[(client_a, 10)]" client_a 20] h0 rs k
  have third: "snd (createIpRateLimiter HeavyIpHits 2 5000 ''slow down'' client_a 20
                 (serve_limiter HeavyIpHits 2 5000 ''slow down'' [(client_a, 10)] ?h1))
               = Reply (SendRetry 429 5 ''slow down'')"
    by simp
  note T1 = C1_fixed_window [where h="?h1" and store=HeavyIpHits and n=2 and w=5000
      and m="''slow down''" and req=client_a and now=10]
  from T1 h1 have second: "snd (createIpRateLimiter HeavyIpHits 2 5000 ''slow down'' client_a 10 ?h1) = Next"
    by simp
  have r: "snd (client_a, 10::int) - 0 < (5000::int)" by simp
  from h0 first r k third h1 second show ?thesis by blast
qed

text \<open>
  With a limit of 0 the first request of a client, which is the \<open>(N+1)\<close>-th of its
  window, is let through.
\<close>

theorem C1_limit_zero_counterexample:
  "snd (createIpRateLimiter HeavyIpHits 0 900000 ''Too many conversion requests. Please wait and retry.''
          client_a 0 (stores initial_server)) = Next"
  by (simp add: createIpRateLimiter_def clearExpired_def initial_server_def Let_def)

section \<open>The concurrency gate\<close>

lemma unreleased_update:
  "j < length xs \<Longrightarrow> \<not> xs ! j \<Longrightarrow>
     Suc (length (filter Not (xs[j := True]))) = length (filter Not xs)"
proof (induction xs arbitrary: j)
  case Nil
  then show ?case by simp
next
  case (Cons x xs)
  then show ?case by (cases j) auto
qed

lemma emit_release: "emit e srv = release (job_of e) srv"
  by (cases e) simp_all

lemma release_done:
  "j < length (released srv) \<Longrightarrow> released srv ! j \<Longrightarrow> release j srv = srv"
  by (simp add: release_def)

lemma release_first:
  assumes "gate_inv cfg srv" and "j < length (released srv)" and "\<not> released srv ! j"
  shows "activeHeavyJobs (release j srv) = activeHeavyJobs srv - 1"
    and "released (release j srv) = (released srv)[j := True]"
    and "gate_inv cfg (release j srv)"
proof -
  have cnt: "Suc (length (filter Not ((released srv)[j := True]))) = length (filter Not (released srv))"
    using assms(2,3) by (rule unreleased_update)
  then have pos: "1 \<le> activeHeavyJobs srv"
    using assms(1) by (simp add: gate_inv_def)
  show "activeHeavyJobs (release j srv) = activeHeavyJobs srv - 1"
    using assms(2,3) pos by (simp add: release_def)
  show "released (release j srv) = (released srv)[j := True]"
    using assms(2,3) by (simp add: release_def)
  show "gate_inv cfg (release j srv)"
    using assms cnt pos by (auto simp: release_def gate_inv_def)
qed

lemma release_inv: "gate_inv cfg srv \<Longrightarrow> gate_inv cfg (release j srv)"
proof (cases "j < length (released srv) \<and> \<not> released srv ! j")
  case True
  assume "gate_inv cfg srv"
  with True show ?thesis by (simp add: release_first(3))
next
  case False
  assume "gate_inv cfg srv"
  with False show ?thesis by (auto simp: release_def)
qed

lemma attempt_inv: "gate_inv cfg srv \<Longrightarrow> gate_inv cfg (fst (limitConcurrentHeavyJobs cfg srv))"
  by (auto simp: limitConcurrentHeavyJobs_def gate_inv_def)

lemma gate_step_inv: "gate_inv cfg srv \<Longrightarrow> gate_inv cfg (gate_step cfg a srv)"
  by (cases a) (simp_all add: attempt_inv emit_release release_inv)

lemma gate_run_inv: "gate_inv cfg srv \<Longrightarrow> gate_inv cfg (gate_run cfg as srv)"
  by (induction as arbitrary: srv) (simp_all add: gate_step_inv)

lemma gate_inv_idle: "activeHeavyJobs srv = 0 \<Longrightarrow> released srv = [] \<Longrightarrow> gate_inv cfg srv"
  by (simp add: gate_inv_def)

lemma events_after_release:
  "j < length (released srv) \<Longrightarrow> released srv ! j \<Longrightarrow> \<forall>e\<in>set es. job_of e = j \<Longrightarrow>
     gate_run cfg (map Event es) srv = srv"
  by (induction es) (simp_all add: emit_release release_done)

lemma events_release_once:
  assumes "gate_inv cfg srv" and "j < length (released srv)" and "\<not> released srv ! j"
    and "es \<noteq> []" and "\<forall>e\<in>set es. job_of e = j"
  shows "activeHeavyJobs (gate_run cfg (map Event es) srv) = activeHeavyJobs srv - 1"
proof (cases es)
  case Nil
  with assms(4) show ?thesis by simp
next
  case (Cons e es')
  have e: "job_of e = j" and es': "\<forall>e\<in>set es'. job_of e = j"
    using assms(5) Cons by simp_all
  let ?s = "release j srv"
  have "j < length (released ?s)" "released ?s ! j"
    using release_first(2) [OF assms(1-3)] assms(2) by simp_all
  then have "gate_run cfg (map Event es') ?s = ?s"
    using es' by (rule events_after_release)
  then show ?thesis
    using Cons e release_first(1) [OF assms(1-3)] by (simp add: emit_release)
qed


text \<open>
  Claim C2. The gate admits a job, adding one to the counter, exactly when the counter is
  below \<open>MAX_CONCURRENT_JOBS\<close>; otherwise it answers 429 with Retry-After 10 and leaves
  the state as it was. With a limit of 2 and an idle gate, of three attempts the first two are
  admitted and the third is refused. In every state reached from an idle server by admission
  attempts and response events, once an admitted job that has not yet released its slot does so
  (on \<open>finish\<close> or on \<open>close\<close>), the next attempt is admitted.
\<close>

theorem C2_gate_admission:
  "((\<exists>j. snd (limitConcurrentHeavyJobs cfg srv) = Admitted j)
       \<longleftrightarrow> activeHeavyJobs srv < MAX_CONCURRENT_JOBS cfg)
   \<and> (activeHeavyJobs srv < MAX_CONCURRENT_JOBS cfg \<longrightarrow>
        limitConcurrentHeavyJobs cfg srv =
          (srv\<lparr>activeHeavyJobs := activeHeavyJobs srv + 1, released := released srv @ [False]\<rparr>,
           Admitted (length (released srv))))
   \<and> (MAX_CONCURRENT_JOBS cfg \<le> activeHeavyJobs srv \<longrightarrow>
        limitConcurrentHeavyJobs cfg srv =
          (srv, Busy (SendRetry 429 10 ''Server is busy. Please retry shortly.'')))
   \<and> (MAX_CONCURRENT_JOBS cfg = 2 \<and> activeHeavyJobs srv = 0 \<longrightarrow>
        fst (attempts cfg 3 srv) =
          [Admitted (length (released srv)), Admitted (Suc (length (released srv))),
           Busy (SendRetry 429 10 ''Server is busy. Please retry shortly.'')])
   \<and> (\<forall>as j e.
          activeHeavyJobs srv = 0 \<and> released srv = []
        \<and> j < length (released (gate_run cfg as srv))
        \<and> \<not> released (gate_run cfg as srv) ! j \<and> job_of e = j \<longrightarrow>
          (\<exists>j'. snd (limitConcurrentHeavyJobs cfg (emit e (gate_run cfg as srv))) = Admitted j'))"
proof (intro conjI allI impI)
  show "(\<exists>j. snd (limitConcurrentHeavyJobs cfg srv) = Admitted j)
          \<longleftrightarrow> activeHeavyJobs srv < MAX_CONCURRENT_JOBS cfg"
    by (simp add: limitConcurrentHeavyJobs_def)
next
  assume "activeHeavyJobs srv < MAX_CONCURRENT_JOBS cfg"
  then show "limitConcurrentHeavyJobs cfg srv =
          (srv\<lparr>activeHeavyJobs := activeHeavyJobs srv + 1, released := released srv @ [False]\<rparr>,
           Admitted (length (released srv)))"
    by (simp add: limitConcurrentHeavyJobs_def)
next
  assume "MAX_CONCURRENT_JOBS cfg \<le> activeHeavyJobs srv"
  then show "limitConcurrentHeavyJobs cfg srv =
          (srv, Busy (SendRetry 429 10 ''Server is busy. Please retry shortly.''))"
    by (simp add: limitConcurrentHeavyJobs_def)
next
  assume "MAX_CONCURRENT_JOBS cfg = 2 \<and> activeHeavyJobs srv = 0"
  then show "fst (attempts cfg 3 srv) =
          [Admitted (length (released srv)), Admitted (Suc (length (released srv))),
           Busy (SendRetry 429 10 ''Server is busy. Please retry shortly.'')]"
    by (simp add: eval_nat_numeral limitConcurrentHeavyJobs_def)
next
  fix as j e
  let ?g = "gate_run cfg as srv"
  assume a: "activeHeavyJobs srv = 0 \<and> released srv = []
        \<and> j < length (released ?g) \<and> \<not> released ?g ! j \<and> job_of e = j"
  then have inv: "gate_inv cfg ?g"
    by (simp add: gate_inv_idle gate_run_inv)
  have act: "activeHeavyJobs (release j ?g) = activeHeavyJobs ?g - 1"
    and inv': "gate_inv cfg (release j ?g)"
    using release_first [OF inv, of j] a by simp_all
  from inv' have "0 \<le> activeHeavyJobs (release j ?g)"
    by (simp add: gate_inv_def)
  with act inv have "activeHeavyJobs (release j ?g) < MAX_CONCURRENT_JOBS cfg"
    by (auto simp: gate_inv_def)
  then show "\<exists>j'. snd (limitConcurrentHeavyJobs cfg (emit e ?g)) = Admitted j'"
    using a by (simp add: emit_release limitConcurrentHeavyJobs_def)
qed

text \<open>
  Claim C3. In every state reached from an idle server by admission attempts and response
  events, the counter is never negative and equals the number of admitted jobs that have not
  released; a job is admitted only when the counter is below the limit, so the counter does not
  exceed it after the admission; and for an admitted job that has not released yet, any
  non-empty sequence of its \<open>finish\<close> and \<open>close\<close> events, in any order and with
  repetitions, lowers the counter by exactly 1.
\<close>

theorem C3_release_once:
  "\<forall>as. activeHeavyJobs srv = 0 \<and> released srv = [] \<longrightarrow>
      0 \<le> activeHeavyJobs (gate_run cfg as srv)
    \<and> activeHeavyJobs (gate_run cfg as srv)
        = int (length (filter Not (released (gate_run cfg as srv))))
    \<and> (\<forall>j. snd (limitConcurrentHeavyJobs cfg (gate_run cfg as srv)) = Admitted j \<longrightarrow>
           activeHeavyJobs (gate_run cfg as srv) < MAX_CONCURRENT_JOBS cfg
         \<and> activeHeavyJobs (fst (limitConcurrentHeavyJobs cfg (gate_run cfg as srv)))
             \<le> MAX_CONCURRENT_JOBS cfg)
    \<and> (\<forall>j es.
           j < length (released (gate_run cfg as srv))
         \<and> \<not> released (gate_run cfg as srv) ! j
         \<and> es \<noteq> [] \<and> (\<forall>e\<in>set es. job_of e = j) \<longrightarrow>
           activeHeavyJobs (gate_run cfg (map Event es) (gate_run cfg as srv))
             = activeHeavyJobs (gate_run cfg as srv) - 1)"
proof (intro allI impI)
  fix as
  let ?g = "gate_run cfg as srv"
  assume "activeHeavyJobs srv = 0 \<and> released srv = []"
  then have inv: "gate_inv cfg ?g"
    by (simp add: gate_inv_idle gate_run_inv)
  have count: "activeHeavyJobs ?g = int (length (filter Not (released ?g)))"
    using inv by (simp add: gate_inv_def)
  then have nonneg: "0 \<le> activeHeavyJobs ?g" by simp
  have admit: "activeHeavyJobs ?g < MAX_CONCURRENT_JOBS cfg
         \<and> activeHeavyJobs (fst (limitConcurrentHeavyJobs cfg ?g)) \<le> MAX_CONCURRENT_JOBS cfg"
    if "snd (limitConcurrentHeavyJobs cfg ?g) = Admitted j" for j
    using that by (simp add: limitConcurrentHeavyJobs_def split: if_splits)
  have once: "activeHeavyJobs (gate_run cfg (map Event es) ?g) = activeHeavyJobs ?g - 1"
    if "j < length (released ?g) \<and> \<not> released ?g ! j \<and> es \<noteq> [] \<and> (\<forall>e\<in>set es. job_of e = j)"
    for j es
    using events_release_once [OF inv, of j es] that by simp
  from nonneg count admit once
  show "0 \<le> activeHeavyJobs ?g
    \<and> activeHeavyJobs ?g = int (length (filter Not (released ?g)))
    \<and> (\<forall>j. snd (limitConcurrentHeavyJobs cfg ?g) = Admitted j \<longrightarrow>
           activeHeavyJobs ?g < MAX_CONCURRENT_JOBS cfg
         \<and> activeHeavyJobs (fst (limitConcurrentHeavyJobs cfg ?g)) \<le> MAX_CONCURRENT_JOBS cfg)
    \<and> (\<forall>j es.
           j < length (released ?g) \<and> \<not> released ?g ! j
         \<and> es \<noteq> [] \<and> (\<forall>e\<in>set es. job_of e = j) \<longrightarrow>
           activeHeavyJobs (gate_run cfg (map Event es) ?g) = activeHeavyJobs ?g - 1)"
    by blast
qed


text \<open>The statement at work on the default limit of 2.\<close>

lemmas gate_eval = default_config_def initial_server_def limitConcurrentHeavyJobs_def release_def

theorem C2_gate_admission_witness:
  "activeHeavyJobs initial_server < MAX_CONCURRENT_JOBS default_config
   \<and> snd (limitConcurrentHeavyJobs default_config initial_server) = Admitted 0
   \<and> MAX_CONCURRENT_JOBS default_config
        \<le> activeHeavyJobs (gate_run default_config [Attempt, Attempt] initial_server)
   \<and> limitConcurrentHeavyJobs default_config (gate_run default_config [Attempt, Attempt] initial_server)
        = (gate_run default_config [Attempt, Attempt] initial_server,
           Busy (SendRetry 429 10 ''Server is busy. Please retry shortly.''))
   \<and> MAX_CONCURRENT_JOBS default_config = 2
   \<and> activeHeavyJobs initial_server = 0 \<and> released initial_server = []
   \<and> fst (attempts default_config 3 initial_server)
        = [Admitted 0, Admitted 1, Busy (SendRetry 429 10 ''Server is busy. Please retry shortly.'')]
   \<and> 1 < length (released (gate_run default_config [Attempt, Attempt, Attempt] initial_server))
   \<and> \<not> released (gate_run default_config [Attempt, Attempt, Attempt] initial_server) ! 1
   \<and> job_of (Finish 1) = 1
   \<and> (\<exists>j'. snd (limitConcurrentHeavyJobs default_config
                  (emit (Finish 1) (gate_run default_config [Attempt, Attempt, Attempt] initial_server)))
             = Admitted j')"
proof -
  let ?g2 = "gate_run default_config [Attempt, Attempt] initial_server"
  let ?g3 = "gate_run default_config [Attempt, Attempt, Attempt] initial_server"
  note T0 = C2_gate_admission [where cfg=default_config and srv=initial_server]
  note T2 = C2_gate_admission [where cfg=default_config and srv="?g2"]
  have free: "activeHeavyJobs initial_server < MAX_CONCURRENT_JOBS default_config"
    and cap: "MAX_CONCURRENT_JOBS default_config = 2"
    and idle: "activeHeavyJobs initial_server = 0" "released initial_server = []"
    by (simp_all add: default_config_def initial_server_def)
  have full: "MAX_CONCURRENT_JOBS default_config \<le> activeHeavyJobs ?g2"
    by (simp add: gate_eval)
  have job: "1 < length (released ?g3)" "\<not> released ?g3 ! 1" "job_of (Finish 1) = 1"
    by (simp_all add: gate_eval)
  from T0 free idle have first: "snd (limitConcurrentHeavyJobs default_config initial_server) = Admitted 0"
    by simp
  from T2 full have busy: "limitConcurrentHeavyJobs default_config ?g2
        = (?g2, Busy (SendRetry 429 10 ''Server is busy. Please retry shortly.''))"
    by blast
  from T0 cap idle have three: "fst (attempts default_config 3 initial_server)
        = [Admitted 0, Admitted 1, Busy (SendRetry 429 10 ''Server is busy. Please retry shortly.'')]"
    by simp
  from T0 have "\<forall>as j e.
          activeHeavyJobs initial_server = 0 \<and> released initial_server = []
        \<and> j < length (released (gate_run default_config as initial_server))
        \<and> \<not> released (gate_run default_config as initial_server) ! j \<and> job_of e = j \<longrightarrow>
          (\<exists>j'. snd (limitConcurrentHeavyJobs default_config
                        (emit e (gate_run default_config as initial_server))) = Admitted j')"
    by blast
  from this [rule_format, where as="[Attempt, Attempt, Attempt]" and j=1 and e="Finish 1"] idle job
  have again: "\<exists>j'. snd (limitConcurrentHeavyJobs default_config (emit (Finish 1) ?g3)) = Admitted j'"
    by blast
  from free first full busy cap idle three job again show ?thesis by blast
qed

text \<open>Two jobs admitted; the first fires both of its events, in either order.\<close>

theorem C3_release_once_witness:
  "activeHeavyJobs initial_server = 0 \<and> released initial_server = []
   \<and> snd (limitConcurrentHeavyJobs default_config (gate_run default_config [Attempt] initial_server))
       = Admitted 1
   \<and> activeHeavyJobs (fst (limitConcurrentHeavyJobs default_config
                              (gate_run default_config [Attempt] initial_server))) \<le> 2
   \<and> 0 < length (released (gate_run default_config [Attempt, Attempt] initial_server))
   \<and> \<not> released (gate_run default_config [Attempt, Attempt] initial_server) ! 0
   \<and> [Finish 0, Close 0, Finish 0] \<noteq> []
   \<and> job_of (Finish 0) = 0 \<and> job_of (Close 0) = 0
   \<and> activeHeavyJobs (gate_run default_config [Attempt, Attempt] initial_server) = 2
   \<and> activeHeavyJobs (gate_run default_config (map Event [Finish 0, Close 0, Finish 0])
                         (gate_run default_config [Attempt, Attempt] initial_server)) = 1
   \<and> activeHeavyJobs (gate_run default_config (map Event [Close 0, Finish 0])
                         (gate_run default_config [Attempt, Attempt] initial_server)) = 1"
proof -
  let ?g1 = "gate_run default_config [Attempt] initial_server"
  let ?g2 = "gate_run default_config [Attempt, Attempt] initial_server"
  have idle: "activeHeavyJobs initial_server = 0" "released initial_server = []"
    by (simp_all add: initial_server_def)
  have adm: "snd (limitConcurrentHeavyJobs default_config ?g1) = Admitted 1"
    by (simp add: gate_eval)
  have job: "0 < length (released ?g2)" "\<not> released ?g2 ! 0"
    "[Finish 0, Close 0, Finish 0] \<noteq> []" "job_of (Finish 0) = 0" "job_of (Close 0) = 0"
    by (simp_all add: gate_eval)
  have two: "activeHeavyJobs ?g2 = 2"
    by (simp add: gate_eval)
  note T1 = C3_release_once [where cfg=default_config and srv=initial_server, rule_format, where as="[Attempt]"]
  note T2 = C3_release_once [where cfg=default_config and srv=initial_server, rule_format,
      where as="[Attempt, Attempt]"]
  from T1 idle adm
  have le: "activeHeavyJobs (fst (limitConcurrentHeavyJobs default_config ?g1)) \<le> 2"
    by (simp add: default_config_def)
  from T2 idle
  have once: "\<forall>j es. j < length (released ?g2) \<and> \<not> released ?g2 ! j
         \<and> es \<noteq> [] \<and> (\<forall>e\<in>set es. job_of e = j) \<longrightarrow>
           activeHeavyJobs (gate_run default_config (map Event es) ?g2) = activeHeavyJobs ?g2 - 1"
    by blast
  from once [rule_format, where j=0 and es="[Finish 0, Close 0, Finish 0]"] job two
  have a: "activeHeavyJobs (gate_run default_config (map Event [Finish 0, Close 0, Finish 0]) ?g2) = 1"
    by simp
  from once [rule_format, where j=0 and es="[Close 0, Finish 0]"] job two
  have b: "activeHeavyJobs (gate_run default_config (map Event [Close 0, Finish 0]) ?g2) = 1"
    by simp
  from idle adm le job two a b show ?thesis by blast
qed

section \<open>The two limiters are independent\<close>

lemma limiter_local:
  assumes "h store = h' store"
  shows "snd (createIpRateLimiter store n w m req now h) = snd (createIpRateLimiter store n w m req now h')"
    and "fst (createIpRateLimiter store n w m req now h) store
           = fst (createIpRateLimiter store n w m req now h') store"
  using assms by (simp_all add: createIpRateLimiter_def Let_def split: option.splits)

lemma on_store_simps:
  "stores (fst (on_store f srv)) = fst (f (stores srv))"
  "snd (on_store f srv) = snd (f (stores srv))"
  "activeHeavyJobs (fst (on_store f srv)) = activeHeavyJobs srv"
  "released (fst (on_store f srv)) = released srv"
  by (simp_all add: on_store_def split: prod.splits)

lemma rateLimit_stores:
  "stores (fst (rateLimit l cfg req now srv)) (store_of l)
     = fst (createIpRateLimiter (store_of l)
              (case l of Global \<Rightarrow> MAX_REQUESTS_PER_WINDOW cfg | Heavy \<Rightarrow> HEAVY_MAX_REQUESTS_PER_WINDOW cfg)
              (WINDOW_MS cfg)
              (case l of Global \<Rightarrow> ''Too many requests. Please try again later.''
                       | Heavy \<Rightarrow> ''Too many conversion requests. Please wait and retry.'')
              req now (stores srv)) (store_of l)"
  "snd (rateLimit l cfg req now srv)
     = snd (createIpRateLimiter (store_of l)
              (case l of Global \<Rightarrow> MAX_REQUESTS_PER_WINDOW cfg | Heavy \<Rightarrow> HEAVY_MAX_REQUESTS_PER_WINDOW cfg)
              (WINDOW_MS cfg)
              (case l of Global \<Rightarrow> ''Too many requests. Please try again later.''
                       | Heavy \<Rightarrow> ''Too many conversion requests. Please wait and retry.'')
              req now (stores srv))"
  by (cases l; simp add: globalRateLimit_def heavyRouteRateLimit_def on_store_simps)+

lemma rateLimit_local:
  assumes "stores s1 (store_of l) = stores s2 (store_of l)"
  shows "snd (rateLimit l cfg req now s1) = snd (rateLimit l cfg req now s2)"
    and "stores (fst (rateLimit l cfg req now s1)) (store_of l)
           = stores (fst (rateLimit l cfg req now s2)) (store_of l)"
  unfolding rateLimit_stores using assms by (rule limiter_local)+

lemma store_of_inj: "store_of l' = store_of l \<longleftrightarrow> l' = l"
  by (cases l; cases l') simp_all

lemma rateLimit_frame:
  assumes "l' \<noteq> l"
  shows "stores (fst (rateLimit l' cfg req now srv)) (store_of l) = stores srv (store_of l)"
proof (cases l')
  case Global
  with assms have "store_of l \<noteq> GlobalIpHits"
    by (cases l) simp_all
  with Global show ?thesis
    by (simp add: globalRateLimit_def on_store_simps limiter_frame)
next
  case Heavy
  with assms have "store_of l \<noteq> HeavyIpHits"
    by (cases l) simp_all
  with Heavy show ?thesis
    by (simp add: heavyRouteRateLimit_def on_store_simps limiter_frame)
qed

lemma rateLimit_gate:
  "activeHeavyJobs (fst (rateLimit l cfg req now srv)) = activeHeavyJobs srv"
  "released (fst (rateLimit l cfg req now srv)) = released srv"
  by (cases l; simp add: globalRateLimit_def heavyRouteRateLimit_def on_store_simps)+

lemma serve_projection:
  assumes "stores s1 (store_of l) = stores s2 (store_of l)"
  shows "stores (serve cfg rs s1) (store_of l)
           = stores (serve cfg (filter (\<lambda>r. fst r = l) rs) s2) (store_of l)"
  using assms
proof (induction rs arbitrary: s1 s2)
  case Nil
  then show ?case by simp
next
  case (Cons r rs)
  let ?t1 = "fst (rateLimit (fst r) cfg (fst (snd r)) (snd (snd r)) s1)"
  show ?case
  proof (cases "fst r = l")
    case True
    let ?t2 = "fst (rateLimit l cfg (fst (snd r)) (snd (snd r)) s2)"
    have "stores (fst (rateLimit l cfg (fst (snd r)) (snd (snd r)) s1)) (store_of l)
            = stores ?t2 (store_of l)"
      using Cons.prems by (rule rateLimit_local(2))
    then have "stores (serve cfg rs (fst (rateLimit l cfg (fst (snd r)) (snd (snd r)) s1))) (store_of l)
            = stores (serve cfg (filter (\<lambda>r. fst r = l) rs) ?t2) (store_of l)"
      by (rule Cons.IH)
    with True show ?thesis by simp
  next
    case False
    have "stores ?t1 (store_of l) = stores s1 (store_of l)"
      using False by (rule rateLimit_frame)
    from this Cons.prems have "stores ?t1 (store_of l) = stores s2 (store_of l)"
      by (rule trans)
    then have "stores (serve cfg rs ?t1) (store_of l)
            = stores (serve cfg (filter (\<lambda>r. fst r = l) rs) s2) (store_of l)"
      by (rule Cons.IH)
    with False show ?thesis by simp
  qed
qed

lemma filter_other: "l' \<noteq> l \<Longrightarrow> filter (\<lambda>r. fst r = l) (map (Pair l') rs) = []"
  by (induction rs) simp_all

lemma serve_other:
  assumes "l' \<noteq> l"
  shows "stores (serve cfg (map (Pair l') rs) srv) (store_of l) = stores srv (store_of l)"
proof -
  have "stores (serve cfg (map (Pair l') rs) srv) (store_of l)
          = stores (serve cfg (filter (\<lambda>r. fst r = l) (map (Pair l') rs)) srv) (store_of l)"
    by (rule serve_projection) (rule refl)
  also have "\<dots> = stores srv (store_of l)"
    by (simp add: filter_other [OF assms])
  finally show ?thesis .
qed

text \<open>
  Claim C6. The global and the heavy limiter keep their counts in different maps. Any
  sequence of invocations of the heavy limiter leaves the map of the global limiter as it was,
  and so the decision of the global limiter on any request; and the other way round. More
  generally, in any interleaving of invocations of the two, the map and the next decision of
  either limiter are those it would have had if the invocations of the other had not
  happened.
\<close>

theorem C6_limiters_independent:
  "stores (serve cfg (map (Pair Heavy) hs) srv) GlobalIpHits = stores srv GlobalIpHits
   \<and> snd (globalRateLimit cfg req now (serve cfg (map (Pair Heavy) hs) srv))
       = snd (globalRateLimit cfg req now srv)
   \<and> stores (serve cfg (map (Pair Global) gs) srv) HeavyIpHits = stores srv HeavyIpHits
   \<and> snd (heavyRouteRateLimit cfg req now (serve cfg (map (Pair Global) gs) srv))
       = snd (heavyRouteRateLimit cfg req now srv)
   \<and> stores (serve cfg rs srv) (store_of l)
       = stores (serve cfg (filter (\<lambda>r. fst r = l) rs) srv) (store_of l)
   \<and> snd (rateLimit l cfg req now (serve cfg rs srv))
       = snd (rateLimit l cfg req now (serve cfg (filter (\<lambda>r. fst r = l) rs) srv))"
proof (intro conjI)
  have g: "stores (serve cfg (map (Pair Heavy) hs) srv) (store_of Global) = stores srv (store_of Global)"
    by (rule serve_other) simp
  have h: "stores (serve cfg (map (Pair Global) gs) srv) (store_of Heavy) = stores srv (store_of Heavy)"
    by (rule serve_other) simp
  show p: "stores (serve cfg rs srv) (store_of l)
       = stores (serve cfg (filter (\<lambda>r. fst r = l) rs) srv) (store_of l)"
    by (rule serve_projection) (rule refl)
  show "stores (serve cfg (map (Pair Heavy) hs) srv) GlobalIpHits = stores srv GlobalIpHits"
    using g by simp
  show "stores (serve cfg (map (Pair Global) gs) srv) HeavyIpHits = stores srv HeavyIpHits"
    using h by simp
  have "snd (rateLimit Global cfg req now (serve cfg (map (Pair Heavy) hs) srv))
       = snd (rateLimit Global cfg req now srv)"
    using g by (rule rateLimit_local(1))
  then show "snd (globalRateLimit cfg req now (serve cfg (map (Pair Heavy) hs) srv))
       = snd (globalRateLimit cfg req now srv)"
    by simp
  have "snd (rateLimit Heavy cfg req now (serve cfg (map (Pair Global) gs) srv))
       = snd (rateLimit Heavy cfg req now srv)"
    using h by (rule rateLimit_local(1))
  then show "snd (heavyRouteRateLimit cfg req now (serve cfg (map (Pair Global) gs) srv))
       = snd (heavyRouteRateLimit cfg req now srv)"
    by simp
  show "snd (rateLimit l cfg req now (serve cfg rs srv))
       = snd (rateLimit l cfg req now (serve cfg (filter (\<lambda>r. fst r = l) rs) srv))"
    using p by (rule rateLimit_local(1))
qed

section \<open>A heavy route without a payload\<close>

lemma handler_no_file:
  assumes "req_file req = None"
  shows "convert_handler req fs = Inr (Done (Send 400 ''No file uploaded.''), fs)"
    and "compress_handler pf req fs = Inr (Done (Send 400 ''No file uploaded.''), fs)"
    and "extract_handler stamp req fs = Inr (Done (Send 400 ''No file uploaded.''), fs)"
    and "unlock_handler req fs = Inr (Done (Send 400 ''No file uploaded.''), fs)"
  using assms
  by (simp_all add: convert_handler_def compress_handler_def extract_handler_def unlock_handler_def)

lemma heavy_decision:
  "snd (heavyRouteRateLimit cfg req now (fst (globalRateLimit cfg req now srv)))
     = snd (heavyRouteRateLimit cfg req now srv)"
proof -
  have "stores (fst (rateLimit Global cfg req now srv)) (store_of Heavy) = stores srv (store_of Heavy)"
    by (rule rateLimit_frame) simp
  then have "snd (rateLimit Heavy cfg req now (fst (rateLimit Global cfg req now srv)))
     = snd (rateLimit Heavy cfg req now srv)"
    by (rule rateLimit_local(1))
  then show ?thesis by simp
qed

lemma limiters_gate:
  "activeHeavyJobs (fst (globalRateLimit cfg req now srv)) = activeHeavyJobs srv"
  "released (fst (globalRateLimit cfg req now srv)) = released srv"
  "activeHeavyJobs (fst (heavyRouteRateLimit cfg req now srv)) = activeHeavyJobs srv"
  "released (fst (heavyRouteRateLimit cfg req now srv)) = released srv"
  using rateLimit_gate [of Global cfg req now srv] rateLimit_gate [of Heavy cfg req now srv]
  by simp_all

text \<open>The chain, given what each middleware decides.\<close>

lemma heavy_route_global:
  assumes "snd (globalRateLimit cfg req now srv) = Reply r"
  shows "heavy_route cfg handler req now (srv, fs)
           = (Rejected r, fst (globalRateLimit cfg req now srv), fs)"
  using assms by (simp add: heavy_route_def case_prod_unfold)

lemma heavy_route_heavy:
  assumes "snd (globalRateLimit cfg req now srv) = Next"
    and "snd (heavyRouteRateLimit cfg req now srv) = Reply r"
  shows "heavy_route cfg handler req now (srv, fs)
           = (Rejected r,
              fst (heavyRouteRateLimit cfg req now (fst (globalRateLimit cfg req now srv))), fs)"
  using assms heavy_decision [of cfg req now srv]
  by (simp add: heavy_route_def case_prod_unfold)

lemma heavy_route_gate:
  assumes "snd (globalRateLimit cfg req now srv) = Next"
    and "snd (heavyRouteRateLimit cfg req now srv) = Next"
  shows "heavy_route cfg handler req now (srv, fs)
           = (let srv2 = fst (heavyRouteRateLimit cfg req now (fst (globalRateLimit cfg req now srv)))
              in if MAX_CONCURRENT_JOBS cfg \<le> activeHeavyJobs srv
                 then (Rejected (SendRetry 429 10 ''Server is busy. Please retry shortly.''), srv2, fs)
                 else (case handler req fs of
                         Inl e \<Rightarrow> (Threw (length (released srv)) e,
                                   srv2\<lparr>activeHeavyJobs := activeHeavyJobs srv + 1,
                                        released := released srv @ [False]\<rparr>, fs)
                       | Inr (s, fs') \<Rightarrow> (Handled (length (released srv)) s,
                                   srv2\<lparr>activeHeavyJobs := activeHeavyJobs srv + 1,
                                        released := released srv @ [False]\<rparr>, fs')))"
  using assms heavy_decision [of cfg req now srv]
  by (simp add: heavy_route_def limitConcurrentHeavyJobs_def limiters_gate Let_def
           case_prod_unfold split: sum.splits)


text \<open>
  Claim C4, as the code has it. The gate stands before \<^verbatim>\<open>upload.single\<close> and the
  handler in the chain of every heavy route, so a request without a file reaches the check
  \<^verbatim>\<open>if (!req.file)\<close> only with a slot in hand. For such a request, whatever the route:
  if a limiter refuses it, or both let it through and the gate is full, it is answered 429 and
  the gate is as before; if both limiters let it through and the gate has a free slot, the slot
  is taken (counter plus one, a new unset flag), the handler answers 400
  \<open>No file uploaded.\<close>, and the \<open>finish\<close> or \<open>close\<close> event of that response gives
  the slot back. The file system is not touched.
\<close>

theorem C4_missing_payload:
  "req_file req = None \<longrightarrow>
     snd (snd (post route cfg pf stamp req now (srv, fs))) = fs
   \<and> (\<forall>r. snd (globalRateLimit cfg req now srv) = Reply r \<longrightarrow>
          fst (post route cfg pf stamp req now (srv, fs)) = Rejected r
        \<and> activeHeavyJobs (fst (snd (post route cfg pf stamp req now (srv, fs)))) = activeHeavyJobs srv
        \<and> released (fst (snd (post route cfg pf stamp req now (srv, fs)))) = released srv)
   \<and> (\<forall>r. snd (globalRateLimit cfg req now srv) = Next
          \<and> snd (heavyRouteRateLimit cfg req now srv) = Reply r \<longrightarrow>
          fst (post route cfg pf stamp req now (srv, fs)) = Rejected r
        \<and> activeHeavyJobs (fst (snd (post route cfg pf stamp req now (srv, fs)))) = activeHeavyJobs srv
        \<and> released (fst (snd (post route cfg pf stamp req now (srv, fs)))) = released srv)
   \<and> (snd (globalRateLimit cfg req now srv) = Next
        \<and> snd (heavyRouteRateLimit cfg req now srv) = Next
        \<and> MAX_CONCURRENT_JOBS cfg \<le> activeHeavyJobs srv \<longrightarrow>
          fst (post route cfg pf stamp req now (srv, fs))
            = Rejected (SendRetry 429 10 ''Server is busy. Please retry shortly.'')
        \<and> activeHeavyJobs (fst (snd (post route cfg pf stamp req now (srv, fs)))) = activeHeavyJobs srv
        \<and> released (fst (snd (post route cfg pf stamp req now (srv, fs)))) = released srv)
   \<and> (snd (globalRateLimit cfg req now srv) = Next
        \<and> snd (heavyRouteRateLimit cfg req now srv) = Next
        \<and> activeHeavyJobs srv < MAX_CONCURRENT_JOBS cfg \<longrightarrow>
          fst (post route cfg pf stamp req now (srv, fs))
            = Handled (length (released srv)) (Done (Send 400 ''No file uploaded.''))
        \<and> activeHeavyJobs (fst (snd (post route cfg pf stamp req now (srv, fs))))
            = activeHeavyJobs srv + 1
        \<and> released (fst (snd (post route cfg pf stamp req now (srv, fs)))) = released srv @ [False]
        \<and> (\<forall>e. job_of e = length (released srv) \<longrightarrow>
               activeHeavyJobs (emit e (fst (snd (post route cfg pf stamp req now (srv, fs)))))
                 = max (activeHeavyJobs srv) 0
             \<and> released (emit e (fst (snd (post route cfg pf stamp req now (srv, fs)))))
                 = released srv @ [True]))"
proof (intro impI)
  assume nf: "req_file req = None"
  let ?H = "case route of Convert \<Rightarrow> convert_handler | Compress \<Rightarrow> compress_handler pf
              | Extract \<Rightarrow> extract_handler stamp | Unlock \<Rightarrow> unlock_handler"
  let ?out = "post route cfg pf stamp req now (srv, fs)"
  have P: "?out = heavy_route cfg ?H req now (srv, fs)"
    by (cases route) simp_all
  have H: "?H req fs = Inr (Done (Send 400 ''No file uploaded.''), fs)"
    using nf by (cases route) (simp_all add: handler_no_file)
  have g: "fst ?out = Rejected r \<and> activeHeavyJobs (fst (snd ?out)) = activeHeavyJobs srv
        \<and> released (fst (snd ?out)) = released srv \<and> snd (snd ?out) = fs"
    if "snd (globalRateLimit cfg req now srv) = Reply r" for r
    unfolding P heavy_route_global [OF that] by (simp add: limiters_gate)
  have h: "fst ?out = Rejected r \<and> activeHeavyJobs (fst (snd ?out)) = activeHeavyJobs srv
        \<and> released (fst (snd ?out)) = released srv \<and> snd (snd ?out) = fs"
    if "snd (globalRateLimit cfg req now srv) = Next \<and> snd (heavyRouteRateLimit cfg req now srv) = Reply r"
    for r
    unfolding P using heavy_route_heavy [of cfg req now srv r ?H fs] that
    by (simp add: limiters_gate)
  have busy: "fst ?out = Rejected (SendRetry 429 10 ''Server is busy. Please retry shortly.'')
        \<and> activeHeavyJobs (fst (snd ?out)) = activeHeavyJobs srv
        \<and> released (fst (snd ?out)) = released srv \<and> snd (snd ?out) = fs"
    if "snd (globalRateLimit cfg req now srv) = Next \<and> snd (heavyRouteRateLimit cfg req now srv) = Next
        \<and> MAX_CONCURRENT_JOBS cfg \<le> activeHeavyJobs srv"
    unfolding P using heavy_route_gate [of cfg req now srv ?H fs] that
    by (simp add: limiters_gate Let_def)
  have adm: "fst ?out = Handled (length (released srv)) (Done (Send 400 ''No file uploaded.''))
        \<and> activeHeavyJobs (fst (snd ?out)) = activeHeavyJobs srv + 1
        \<and> released (fst (snd ?out)) = released srv @ [False]
        \<and> (\<forall>e. job_of e = length (released srv) \<longrightarrow>
               activeHeavyJobs (emit e (fst (snd ?out))) = max (activeHeavyJobs srv) 0
             \<and> released (emit e (fst (snd ?out))) = released srv @ [True])
        \<and> snd (snd ?out) = fs"
    if "snd (globalRateLimit cfg req now srv) = Next \<and> snd (heavyRouteRateLimit cfg req now srv) = Next
        \<and> activeHeavyJobs srv < MAX_CONCURRENT_JOBS cfg"
    unfolding P using heavy_route_gate [of cfg req now srv ?H fs] that H
    by (simp add: limiters_gate Let_def emit_release release_def)
  have fs: "snd (snd ?out) = fs"
  proof (cases "snd (globalRateLimit cfg req now srv)")
    case Next
    note G = this
    show ?thesis
    proof (cases "snd (heavyRouteRateLimit cfg req now srv)")
      case Next
      with G busy adm show ?thesis
        by (cases "MAX_CONCURRENT_JOBS cfg \<le> activeHeavyJobs srv") simp_all
    next
      case (Reply r)
      with G h show ?thesis by simp
    qed
  next
    case (Reply r)
    with g show ?thesis by simp
  qed
  from fs g h busy adm
  show "snd (snd ?out) = fs
   \<and> (\<forall>r. snd (globalRateLimit cfg req now srv) = Reply r \<longrightarrow>
          fst ?out = Rejected r
        \<and> activeHeavyJobs (fst (snd ?out)) = activeHeavyJobs srv
        \<and> released (fst (snd ?out)) = released srv)
   \<and> (\<forall>r. snd (globalRateLimit cfg req now srv) = Next
          \<and> snd (heavyRouteRateLimit cfg req now srv) = Reply r \<longrightarrow>
          fst ?out = Rejected r
        \<and> activeHeavyJobs (fst (snd ?out)) = activeHeavyJobs srv
        \<and> released (fst (snd ?out)) = released srv)
   \<and> (snd (globalRateLimit cfg req now srv) = Next
        \<and> snd (heavyRouteRateLimit cfg req now srv) = Next
        \<and> MAX_CONCURRENT_JOBS cfg \<le> activeHeavyJobs srv \<longrightarrow>
          fst ?out = Rejected (SendRetry 429 10 ''Server is busy. Please retry shortly.'')
        \<and> activeHeavyJobs (fst (snd ?out)) = activeHeavyJobs srv
        \<and> released (fst (snd ?out)) = released srv)
   \<and> (snd (globalRateLimit cfg req now srv) = Next
        \<and> snd (heavyRouteRateLimit cfg req now srv) = Next
        \<and> activeHeavyJobs srv < MAX_CONCURRENT_JOBS cfg \<longrightarrow>
          fst ?out = Handled (length (released srv)) (Done (Send 400 ''No file uploaded.''))
        \<and> activeHeavyJobs (fst (snd ?out)) = activeHeavyJobs srv + 1
        \<and> released (fst (snd ?out)) = released srv @ [False]
        \<and> (\<forall>e. job_of e = length (released srv) \<longrightarrow>
               activeHeavyJobs (emit e (fst (snd ?out))) = max (activeHeavyJobs srv) 0
             \<and> released (emit e (fst (snd ?out))) = released srv @ [True]))"
    by blast
qed


text \<open>The four cases at work, one route each.\<close>

lemmas limiter_eval =
  globalRateLimit_def heavyRouteRateLimit_def on_store_def createIpRateLimiter_def
  clearExpired_def ceil_div_1000_def getIp_def Let_def initial_server_def default_config_def

theorem C4_missing_payload_witness:
  "req_file no_upload = None
   \<and> snd (globalRateLimit default_config no_upload 0 initial_server) = Next
   \<and> snd (heavyRouteRateLimit default_config no_upload 0 initial_server) = Next
   \<and> activeHeavyJobs initial_server < MAX_CONCURRENT_JOBS default_config
   \<and> job_of (Finish 0) = length (released initial_server)
   \<and> fst (post Convert default_config (\<lambda>v. NaN) ''0'' no_upload 0 (initial_server, Map.empty))
       = Handled 0 (Done (Send 400 ''No file uploaded.''))
   \<and> activeHeavyJobs (fst (snd (post Convert default_config (\<lambda>v. NaN) ''0'' no_upload 0
                                    (initial_server, Map.empty)))) = 1
   \<and> activeHeavyJobs (emit (Finish 0) (fst (snd (post Convert default_config (\<lambda>v. NaN) ''0''
                                    no_upload 0 (initial_server, Map.empty))))) = 0
   \<and> MAX_CONCURRENT_JOBS default_config
        \<le> activeHeavyJobs (gate_run default_config [Attempt, Attempt] initial_server)
   \<and> snd (globalRateLimit default_config no_upload 0
             (gate_run default_config [Attempt, Attempt] initial_server)) = Next
   \<and> snd (heavyRouteRateLimit default_config no_upload 0
             (gate_run default_config [Attempt, Attempt] initial_server)) = Next
   \<and> fst (post Unlock default_config (\<lambda>v. NaN) ''0'' no_upload 0
             (gate_run default_config [Attempt, Attempt] initial_server, Map.empty))
       = Rejected (SendRetry 429 10 ''Server is busy. Please retry shortly.'')
   \<and> snd (globalRateLimit (default_config\<lparr>MAX_REQUESTS_PER_WINDOW := 1\<rparr>) no_upload 1
             (fst (globalRateLimit (default_config\<lparr>MAX_REQUESTS_PER_WINDOW := 1\<rparr>) no_upload 0
                     initial_server)))
       = Reply (SendRetry 429 900 ''Too many requests. Please try again later.'')
   \<and> fst (post Extract (default_config\<lparr>MAX_REQUESTS_PER_WINDOW := 1\<rparr>) (\<lambda>v. NaN) ''0'' no_upload 1
             (fst (globalRateLimit (default_config\<lparr>MAX_REQUESTS_PER_WINDOW := 1\<rparr>) no_upload 0
                     initial_server), Map.empty))
       = Rejected (SendRetry 429 900 ''Too many requests. Please try again later.'')
   \<and> snd (globalRateLimit (default_config\<lparr>HEAVY_MAX_REQUESTS_PER_WINDOW := 1\<rparr>) no_upload 1
             (fst (heavyRouteRateLimit (default_config\<lparr>HEAVY_MAX_REQUESTS_PER_WINDOW := 1\<rparr>)
                     no_upload 0 initial_server))) = Next
   \<and> snd (heavyRouteRateLimit (default_config\<lparr>HEAVY_MAX_REQUESTS_PER_WINDOW := 1\<rparr>) no_upload 1
             (fst (heavyRouteRateLimit (default_config\<lparr>HEAVY_MAX_REQUESTS_PER_WINDOW := 1\<rparr>)
                     no_upload 0 initial_server)))
       = Reply (SendRetry 429 900 ''Too many conversion requests. Please wait and retry.'')
   \<and> fst (post Compress (default_config\<lparr>HEAVY_MAX_REQUESTS_PER_WINDOW := 1\<rparr>) (\<lambda>v. NaN) ''0''
             no_upload 1
             (fst (heavyRouteRateLimit (default_config\<lparr>HEAVY_MAX_REQUESTS_PER_WINDOW := 1\<rparr>)
                     no_upload 0 initial_server), Map.empty))
       = Rejected (SendRetry 429 900 ''Too many conversion requests. Please wait and retry.'')"
proof -
  let ?pf = "\<lambda>v::string option. NaN"
  let ?g2 = "gate_run default_config [Attempt, Attempt] initial_server"
  let ?c1 = "default_config\<lparr>MAX_REQUESTS_PER_WINDOW := 1\<rparr>"
  let ?s1 = "fst (globalRateLimit ?c1 no_upload 0 initial_server)"
  let ?c2 = "default_config\<lparr>HEAVY_MAX_REQUESTS_PER_WINDOW := 1\<rparr>"
  let ?s2 = "fst (heavyRouteRateLimit ?c2 no_upload 0 initial_server)"
  have nf: "req_file no_upload = None" by simp
  have a: "snd (globalRateLimit default_config no_upload 0 initial_server) = Next"
    "snd (heavyRouteRateLimit default_config no_upload 0 initial_server) = Next"
    "activeHeavyJobs initial_server < MAX_CONCURRENT_JOBS default_config"
    "job_of (Finish 0) = length (released initial_server)"
    by (simp_all add: limiter_eval)
  have b: "MAX_CONCURRENT_JOBS default_config \<le> activeHeavyJobs ?g2"
    "snd (globalRateLimit default_config no_upload 0 ?g2) = Next"
    "snd (heavyRouteRateLimit default_config no_upload 0 ?g2) = Next"
    by (simp_all add: limiter_eval limitConcurrentHeavyJobs_def)
  have c: "snd (globalRateLimit ?c1 no_upload 1 ?s1)
       = Reply (SendRetry 429 900 ''Too many requests. Please try again later.'')"
    by (simp add: limiter_eval)
  have d: "snd (globalRateLimit ?c2 no_upload 1 ?s2) = Next"
    "snd (heavyRouteRateLimit ?c2 no_upload 1 ?s2)
       = Reply (SendRetry 429 900 ''Too many conversion requests. Please wait and retry.'')"
    by (simp_all add: limiter_eval)
  note A = C4_missing_payload [where req=no_upload and route=Convert and cfg=default_config
      and pf="?pf" and stamp="''0''" and now=0 and srv=initial_server and fs=Map.empty, rule_format, OF nf]
  note B = C4_missing_payload [where req=no_upload and route=Unlock and cfg=default_config
      and pf="?pf" and stamp="''0''" and now=0 and srv="?g2" and fs=Map.empty, rule_format, OF nf]
  note C = C4_missing_payload [where req=no_upload and route=Extract and cfg="?c1"
      and pf="?pf" and stamp="''0''" and now=1 and srv="?s1" and fs=Map.empty, rule_format, OF nf]
  note D = C4_missing_payload [where req=no_upload and route=Compress and cfg="?c2"
      and pf="?pf" and stamp="''0''" and now=1 and srv="?s2" and fs=Map.empty, rule_format, OF nf]
  have z: "length (released initial_server) = 0" "activeHeavyJobs initial_server = 0"
    by (simp_all add: initial_server_def)
  from A a have "fst (post Convert default_config ?pf ''0'' no_upload 0 (initial_server, Map.empty))
       = Handled (length (released initial_server)) (Done (Send 400 ''No file uploaded.''))"
    "activeHeavyJobs (fst (snd (post Convert default_config ?pf ''0'' no_upload 0
                                    (initial_server, Map.empty)))) = activeHeavyJobs initial_server + 1"
    "activeHeavyJobs (emit (Finish 0) (fst (snd (post Convert default_config ?pf ''0''
                                    no_upload 0 (initial_server, Map.empty)))))
       = max (activeHeavyJobs initial_server) 0"
    by blast+
  then have a': "fst (post Convert default_config ?pf ''0'' no_upload 0 (initial_server, Map.empty))
       = Handled 0 (Done (Send 400 ''No file uploaded.''))"
    "activeHeavyJobs (fst (snd (post Convert default_config ?pf ''0'' no_upload 0
                                    (initial_server, Map.empty)))) = 1"
    "activeHeavyJobs (emit (Finish 0) (fst (snd (post Convert default_config ?pf ''0''
                                    no_upload 0 (initial_server, Map.empty))))) = 0"
    unfolding z by simp_all
  from B b have b': "fst (post Unlock default_config ?pf ''0'' no_upload 0 (?g2, Map.empty))
       = Rejected (SendRetry 429 10 ''Server is busy. Please retry shortly.'')"
    by blast
  from C c have c': "fst (post Extract ?c1 ?pf ''0'' no_upload 1 (?s1, Map.empty))
       = Rejected (SendRetry 429 900 ''Too many requests. Please try again later.'')"
    by blast
  from D d have d': "fst (post Compress ?c2 ?pf ''0'' no_upload 1 (?s2, Map.empty))
       = Rejected (SendRetry 429 900 ''Too many conversion requests. Please wait and retry.'')"
    by blast
  from nf a a' b b' c c' d d' show ?thesis by blast
qed

text \<open>
  On an idle server the request without a file holds a slot when its 400 is sent; on a server
  with both slots taken it is answered 429 by the gate and never reaches the check for a file.
\<close>

theorem C4_slot_taken_counterexample:
  "req_file no_upload = None
   \<and> activeHeavyJobs initial_server = 0
   \<and> fst (heavy_route default_config convert_handler no_upload 0 (initial_server, Map.empty))
       = Handled 0 (Done (Send 400 ''No file uploaded.''))
   \<and> activeHeavyJobs (fst (snd (heavy_route default_config convert_handler no_upload 0
                                    (initial_server, Map.empty)))) = 1
   \<and> fst (heavy_route default_config convert_handler no_upload 0
             (gate_run default_config [Attempt, Attempt] initial_server, Map.empty))
       = Rejected (SendRetry 429 10 ''Server is busy. Please retry shortly.'')"
  by (simp add: heavy_route_def limiter_eval limitConcurrentHeavyJobs_def convert_handler_def)

section \<open>Cleanup\<close>

lemma guarded_absent:
  "(truthy p \<longrightarrow> fs (the p) = None) \<Longrightarrow> guarded remove p fs = Inr fs"
  by (auto simp: guarded_def existsSync_def)

lemma guarded_unlink_Inr:
  assumes "guarded unlinkSync p fs = Inr fs1"
  shows "truthy p \<longrightarrow> fs1 (the p) = None" and "\<forall>q. fs q = None \<longrightarrow> fs1 q = None"
    and "\<forall>q. Some q \<noteq> p \<longrightarrow> fs1 q = fs q"
  using assms
  by (cases p; auto simp: guarded_def existsSync_def unlinkSync_def
        split: if_splits option.splits node.splits)+

lemma guarded_unlink_Inl:
  assumes "guarded unlinkSync p fs = Inl e"
  shows "truthy p \<and> (\<exists>n es. fs (the p) = Some (Dir n es))"
  using assms
  by (auto simp: guarded_def existsSync_def unlinkSync_def split: if_splits option.splits node.splits)

lemma guarded_unlink_file:
  assumes "truthy p \<longrightarrow> (\<forall>n es. fs (the p) \<noteq> Some (Dir n es))"
  shows "guarded unlinkSync p fs = Inr (if truthy p then fs(the p := None) else fs)"
proof (cases "truthy p")
  case True
  with assms show ?thesis
    by (cases "fs (the p)")
       (auto simp: guarded_def existsSync_def unlinkSync_def split: node.splits)
next
  case False
  then show ?thesis by (simp add: guarded_def)
qed

lemma guarded_rm:
  "guarded rmSync p fs = Inr (if truthy p then fs(the p := None) else fs)"
  by (auto simp: guarded_def existsSync_def rmSync_def)

lemma cleanup_total: "\<exists>fs' w. cleanup input output extraDir fs = Inr (fs', w)"
  by (cases "cleanup_try input output extraDir fs"; cases "snd (cleanup_try input output extraDir fs)")
     (simp_all add: cleanup_def)

lemma cleanup_eq: "cleanup input output extraDir fs = Inr (cleanup_try input output extraDir fs)"
  by (cases "cleanup_try input output extraDir fs"; cases "snd (cleanup_try input output extraDir fs)")
     (simp_all add: cleanup_def)

lemma cleanup_try_again:
  assumes "cleanup_try input output extraDir fs = (fs', w)"
  shows "cleanup_try input output extraDir fs' = (fs', w)"
proof (cases "guarded unlinkSync input fs")
  case (Inl e)
  with assms show ?thesis by (auto simp: cleanup_try_def)
next
  case (Inr fs1)
  note one = this
  have in1: "truthy input \<longrightarrow> fs1 (the input) = None"
    using guarded_unlink_Inr(1) [OF one] .
  then have again1: "guarded unlinkSync input fs1 = Inr fs1"
    by (rule guarded_absent)
  show ?thesis
  proof (cases "guarded unlinkSync output fs1")
    case (Inl e)
    with assms one again1 show ?thesis by (auto simp: cleanup_try_def)
  next
    case (Inr fs2)
    note two = this
    have out2: "truthy output \<longrightarrow> fs2 (the output) = None"
      using guarded_unlink_Inr(1) [OF two] .
    have in2: "truthy input \<longrightarrow> fs2 (the input) = None"
      using guarded_unlink_Inr(2) [OF two] in1 by blast
    let ?fs3 = "if truthy extraDir then fs2(the extraDir := None) else fs2"
    have res: "fs' = ?fs3" "w = None"
      using assms one two by (simp_all add: cleanup_try_def guarded_rm)
    have "truthy input \<longrightarrow> ?fs3 (the input) = None"
      "truthy output \<longrightarrow> ?fs3 (the output) = None"
      "truthy extraDir \<longrightarrow> ?fs3 (the extraDir) = None"
      using in2 out2 by simp_all
    then have "guarded unlinkSync input ?fs3 = Inr ?fs3"
      "guarded unlinkSync output ?fs3 = Inr ?fs3" "guarded rmSync extraDir ?fs3 = Inr ?fs3"
      by (simp_all only: guarded_absent)
    then have "cleanup_try input output extraDir ?fs3 = (?fs3, None)"
      by (simp add: cleanup_try_def)
    with res show ?thesis by simp
  qed
qed

lemma cleanup_try_files:
  assumes "truthy input \<longrightarrow> (\<forall>n es. fs (the input) \<noteq> Some (Dir n es))"
    and "truthy output \<longrightarrow> (\<forall>n es. fs (the output) \<noteq> Some (Dir n es))"
  shows "cleanup_try input output extraDir fs =
           (\<lambda>q. if (truthy input \<and> q = the input) \<or> (truthy output \<and> q = the output)
                     \<or> (truthy extraDir \<and> q = the extraDir) then None else fs q, None)"
proof -
  let ?fs1 = "if truthy input then fs(the input := None) else fs"
  have one: "guarded unlinkSync input fs = Inr ?fs1"
    using assms(1) by (rule guarded_unlink_file)
  have "truthy output \<longrightarrow> (\<forall>n es. ?fs1 (the output) \<noteq> Some (Dir n es))"
    using assms(2) by simp
  then have two: "guarded unlinkSync output ?fs1
      = Inr (if truthy output then ?fs1(the output := None) else ?fs1)"
    by (rule guarded_unlink_file)
  show ?thesis
    unfolding cleanup_try_def one sum.case two guarded_rm
    by (auto simp: fun_eq_iff)
qed


text \<open>
  Claim C9. Whatever its arguments and whatever the file system holds, \<^verbatim>\<open>cleanup\<close>
  returns to its caller: an exception of \<^verbatim>\<open>unlinkSync\<close> or \<^verbatim>\<open>rmSync\<close> ends in
  the \<^verbatim>\<open>catch\<close>. A second call with the same arguments on the file system the first
  one left behind changes nothing, and ends as the first did. When the input and the output,
  where given, are regular files or absent, the call removes the three paths, touches nothing
  else and prints no warning.
\<close>

theorem C9_cleanup_total_idempotent:
  "(\<exists>fs' w. cleanup input output extraDir fs = Inr (fs', w))
   \<and> (\<forall>fs' w. cleanup input output extraDir fs = Inr (fs', w) \<longrightarrow>
          cleanup input output extraDir fs' = Inr (fs', w))
   \<and> ((truthy input \<longrightarrow> (\<forall>n es. fs (the input) \<noteq> Some (Dir n es)))
        \<and> (truthy output \<longrightarrow> (\<forall>n es. fs (the output) \<noteq> Some (Dir n es))) \<longrightarrow>
          cleanup input output extraDir fs =
            Inr (\<lambda>q. if (truthy input \<and> q = the input) \<or> (truthy output \<and> q = the output)
                         \<or> (truthy extraDir \<and> q = the extraDir) then None else fs q, None))"
proof (intro conjI allI impI)
  show "\<exists>fs' w. cleanup input output extraDir fs = Inr (fs', w)"
    by (rule cleanup_total)
next
  fix fs' w
  assume "cleanup input output extraDir fs = Inr (fs', w)"
  then have "cleanup_try input output extraDir fs = (fs', w)"
    by (simp add: cleanup_eq)
  then have "cleanup_try input output extraDir fs' = (fs', w)"
    by (rule cleanup_try_again)
  then show "cleanup input output extraDir fs' = Inr (fs', w)"
    by (simp add: cleanup_eq)
next
  assume a: "(truthy input \<longrightarrow> (\<forall>n es. fs (the input) \<noteq> Some (Dir n es)))
        \<and> (truthy output \<longrightarrow> (\<forall>n es. fs (the output) \<noteq> Some (Dir n es)))"
  then have "truthy input \<longrightarrow> (\<forall>n es. fs (the input) \<noteq> Some (Dir n es))"
    and "truthy output \<longrightarrow> (\<forall>n es. fs (the output) \<noteq> Some (Dir n es))"
    by blast+
  then show "cleanup input output extraDir fs =
            Inr (\<lambda>q. if (truthy input \<and> q = the input) \<or> (truthy output \<and> q = the output)
                         \<or> (truthy extraDir \<and> q = the extraDir) then None else fs q, None)"
    unfolding cleanup_eq by (simp only: cleanup_try_files)
qed

text \<open>
  An upload and an empty extraction directory, the zip never written: one call removes
  everything, a second finds nothing to do. A directory given as the input is kept, with a
  warning.
\<close>

theorem C9_cleanup_total_idempotent_witness:
  "staged ''uploads/3f9a'' = Some (File 52311)
   \<and> staged ''uploads/extract_1700000000000.zip'' = None
   \<and> cleanup (Some ''uploads/3f9a'') (Some ''uploads/extract_1700000000000.zip'')
        (Some ''uploads/extract_1700000000000'') staged = Inr (Map.empty, None)
   \<and> cleanup (Some ''uploads/3f9a'') (Some ''uploads/extract_1700000000000.zip'')
        (Some ''uploads/extract_1700000000000'') Map.empty = Inr (Map.empty, None)
   \<and> cleanup (Some ''uploads/extract_1700000000000'') None None staged
        = Inr (staged, Some EISDIR)"
proof -
  let ?i = "Some ''uploads/3f9a''" and ?o = "Some ''uploads/extract_1700000000000.zip''"
    and ?d = "Some ''uploads/extract_1700000000000''"
  note T = C9_cleanup_total_idempotent [of "?i" "?o" "?d" staged]
  have f: "staged ''uploads/3f9a'' = Some (File 52311)"
    "staged ''uploads/extract_1700000000000.zip'' = None"
    by simp_all
  have gone: "(\<lambda>q. if (truthy ?i \<and> q = the ?i) \<or> (truthy ?o \<and> q = the ?o)
                         \<or> (truthy ?d \<and> q = the ?d) then None else staged q) = Map.empty"
    by (auto simp: fun_eq_iff)
  from T f have "cleanup ?i ?o ?d staged =
            Inr (\<lambda>q. if (truthy ?i \<and> q = the ?i) \<or> (truthy ?o \<and> q = the ?o)
                         \<or> (truthy ?d \<and> q = the ?d) then None else staged q, None)"
    by simp
  then have once: "cleanup ?i ?o ?d staged = Inr (Map.empty, None)"
    unfolding gone .
  with T have twice: "cleanup ?i ?o ?d Map.empty = Inr (Map.empty, None)"
    by blast
  have dir: "cleanup ?d None None staged = Inr (staged, Some EISDIR)"
    by (simp add: cleanup_def cleanup_try_def guarded_def existsSync_def unlinkSync_def)
  with C9_cleanup_total_idempotent [of "?d" None None staged]
  have dir2: "cleanup ?d None None staged = Inr (staged, Some EISDIR)"
    by blast
  from f once twice dir2 show ?thesis by simp
qed

section \<open>Extraction that produces nothing\<close>

lemma replying_cleanup:
  "replying r (cleanup input output extraDir fs)
     = Inr (Done r, fst (cleanup_try input output extraDir fs))"
  by (simp add: replying_def cleanup_eq case_prod_unfold)

lemma cleanup_input_dir:
  assumes "inputPath \<noteq> []" and "outputDir \<noteq> []"
    and "\<forall>n es. fs inputPath \<noteq> Some (Dir n es)"
  shows "cleanup_try (Some inputPath) None (Some outputDir) fs
           = (fs(inputPath := None, outputDir := None), None)"
proof -
  have p1: "truthy (Some inputPath) \<longrightarrow> (\<forall>n es. fs (the (Some inputPath)) \<noteq> Some (Dir n es))"
    using assms(3) by simp
  have p2: "truthy None \<longrightarrow> (\<forall>n es. fs (the None) \<noteq> Some (Dir n es))"
    by simp
  have "(\<lambda>q. if (truthy (Some inputPath) \<and> q = the (Some inputPath))
                     \<or> (truthy None \<and> q = the None)
                     \<or> (truthy (Some outputDir) \<and> q = the (Some outputDir)) then None else fs q)
      = fs(inputPath := None, outputDir := None)"
    using assms(1,2) by (auto simp: fun_eq_iff)
  with cleanup_try_files [OF p1 p2, of "Some outputDir"] show ?thesis by simp
qed

lemma extract_empty:
  assumes "error = None" and "\<not> checkPasswordError stderr stdout"
    and "fs outputDir = Some (Dir n [])"
    and "inputPath \<noteq> []" and "outputDir \<noteq> []"
    and "\<forall>n es. fs inputPath \<noteq> Some (Dir n es)"
  shows "extract_callback mode inputPath outputDir error stdout stderr fs
       = Inr (Done (Send 422
                (if mode = ''images''
                 then ''No embedded images found. Try '' @ quoted ''Extract Pages'' @ '' instead.''
                 else ''Could not render pages.'')),
              fs(inputPath := None, outputDir := None))"
proof -
  have ls: "readdirSync fs outputDir = Inr []"
    using assms(3) by (simp add: readdirSync_def)
  have c: "cleanup_try (Some inputPath) None (Some outputDir) fs
           = (fs(inputPath := None, outputDir := None), None)"
    using assms(4,5,6) by (rule cleanup_input_dir)
  show ?thesis
    unfolding extract_callback_def replying_cleanup c
    using assms(1,2) ls by simp
qed

text \<open>
  Claim C8. In the callback of the extract route, when the subprocess reported no error, its
  text holds no credential marker and the output directory exists and is empty, the answer is
  422 with the message of the mode (\<open>images\<close>, or any other), not 500 and not a download,
  and the staged input and the output directory are removed, nothing else. The staged input is
  the file that the upload middleware wrote: a non-empty path that is not a directory.
\<close>

theorem C8_extract_empty_result:
  "error = None \<and> \<not> checkPasswordError stderr stdout
   \<and> (\<exists>n. fs (''uploads/extract_'' @ stamp) = Some (Dir n []))
   \<and> inputPath \<noteq> [] \<and> (\<forall>n es. fs inputPath \<noteq> Some (Dir n es)) \<longrightarrow>
     extract_callback mode inputPath (''uploads/extract_'' @ stamp) error stdout stderr fs
       = Inr (Done (Send 422
                (if mode = ''images''
                 then ''No embedded images found. Try '' @ quoted ''Extract Pages'' @ '' instead.''
                 else ''Could not render pages.'')),
              fs(inputPath := None, ''uploads/extract_'' @ stamp := None))"
proof (intro impI)
  assume a: "error = None \<and> \<not> checkPasswordError stderr stdout
   \<and> (\<exists>n. fs (''uploads/extract_'' @ stamp) = Some (Dir n []))
   \<and> inputPath \<noteq> [] \<and> (\<forall>n es. fs inputPath \<noteq> Some (Dir n es))"
  then obtain n where d: "fs (''uploads/extract_'' @ stamp) = Some (Dir n [])"
    by blast
  have ne: "''uploads/extract_'' @ stamp \<noteq> []"
    by simp
  from a have "error = None" "\<not> checkPasswordError stderr stdout" "inputPath \<noteq> []"
    "\<forall>n es. fs inputPath \<noteq> Some (Dir n es)"
    by blast+
  then show "extract_callback mode inputPath (''uploads/extract_'' @ stamp) error stdout stderr fs
       = Inr (Done (Send 422
                (if mode = ''images''
                 then ''No embedded images found. Try '' @ quoted ''Extract Pages'' @ '' instead.''
                 else ''Could not render pages.'')),
              fs(inputPath := None, ''uploads/extract_'' @ stamp := None))"
    using d ne by (intro extract_empty)
qed

text \<open>Both messages, on an upload whose extraction left the directory empty.\<close>

theorem C8_extract_empty_result_witness:
  "\<not> checkPasswordError ''Syntax Warning: no images'' []
   \<and> staged (''uploads/extract_'' @ ''1700000000000'') = Some (Dir 4096 [])
   \<and> ''uploads/3f9a'' \<noteq> []
   \<and> staged ''uploads/3f9a'' = Some (File 52311)
   \<and> extract_callback ''images'' ''uploads/3f9a'' (''uploads/extract_'' @ ''1700000000000'')
        None [] ''Syntax Warning: no images'' staged
       = Inr (Done (Send 422 (''No embedded images found. Try '' @ quoted ''Extract Pages''
                               @ '' instead.'')), Map.empty)
   \<and> extract_callback ''pages'' ''uploads/3f9a'' (''uploads/extract_'' @ ''1700000000000'')
        None [] ''Syntax Warning: no images'' staged
       = Inr (Done (Send 422 ''Could not render pages.''), Map.empty)"
proof -
  have m: "\<not> checkPasswordError ''Syntax Warning: no images'' []"
    by code_simp
  have f: "staged (''uploads/extract_'' @ ''1700000000000'') = Some (Dir 4096 [])"
    "''uploads/3f9a'' \<noteq> []" "staged ''uploads/3f9a'' = Some (File 52311)"
    by simp_all
  have h: "(None :: string option) = None \<and> \<not> checkPasswordError ''Syntax Warning: no images'' []
   \<and> (\<exists>n. staged (''uploads/extract_'' @ ''1700000000000'') = Some (Dir n []))
   \<and> ''uploads/3f9a'' \<noteq> [] \<and> (\<forall>n es. staged ''uploads/3f9a'' \<noteq> Some (Dir n es))"
    using m by simp
  have e: "staged(''uploads/3f9a'' := None, ''uploads/extract_'' @ ''1700000000000'' := None)
      = Map.empty"
    by (auto simp: fun_eq_iff)
  have a: "extract_callback ''images'' ''uploads/3f9a'' (''uploads/extract_'' @ ''1700000000000'')
        None [] ''Syntax Warning: no images'' staged
       = Inr (Done (Send 422 (''No embedded images found. Try '' @ quoted ''Extract Pages''
                               @ '' instead.'')), Map.empty)"
    using C8_extract_empty_result [where error=None and stderr="''Syntax Warning: no images''"
      and stdout="[]" and fs=staged and stamp="''1700000000000''" and inputPath="''uploads/3f9a''"
      and mode="''images''", THEN mp, OF h]
    unfolding e by simp
  have b: "extract_callback ''pages'' ''uploads/3f9a'' (''uploads/extract_'' @ ''1700000000000'')
        None [] ''Syntax Warning: no images'' staged
       = Inr (Done (Send 422 ''Could not render pages.''), Map.empty)"
    using C8_extract_empty_result [where error=None and stderr="''Syntax Warning: no images''"
      and stdout="[]" and fs=staged and stamp="''1700000000000''" and inputPath="''uploads/3f9a''"
      and mode="''pages''", THEN mp, OF h]
    unfolding e by simp
  from m f a b show ?thesis by blast
qed

section \<open>Classifying what the subprocess reported\<close>

lemma replied_status_replying [simp]:
  "replied_status (replying (Send s b) (cleanup input output extraDir fs)) = Some s"
  by (simp add: replying_cleanup replied_status_def)

lemma checkPasswordError_markers:
  "checkPasswordError stderr stdout \<longleftrightarrow>
     sublist ''password'' (toLowerCase (stderr @ stdout))
     \<or> sublist ''encrypted'' (toLowerCase (stderr @ stdout))"
proof -
  have "sublist ''password'' ''this file requires a password''"
    by code_simp
  then have "sublist ''this file requires a password'' t \<Longrightarrow> sublist ''password'' t" for t
    by (rule sublist_order.order_trans)
  then show ?thesis
    by (auto simp: checkPasswordError_def str_includes_def Let_def)
qed

lemma callback_marker:
  assumes "route \<noteq> Unlock" and "checkPasswordError stderr stdout"
  shows "\<exists>fs'. callback route mode inputPath out error stdout stderr fs
           = Inr (Done (Send 401 ''PASSWORD_REQUIRED''), fs')"
  using assms
  by (cases route)
     (simp_all add: convert_callback_def compress_callback_def extract_callback_def
        replying_cleanup)

lemma callback_error:
  assumes "route \<noteq> Unlock" and "\<not> checkPasswordError stderr stdout" and "error \<noteq> None"
  shows "\<exists>fs'. callback route mode inputPath out error stdout stderr fs
           = Inr (Done (Send 500 (case route of Convert \<Rightarrow> ''Error converting file.''
                                   | Compress \<Rightarrow> ''Compression failed.''
                                   | Extract \<Rightarrow> ''Processing failed.''
                                   | Unlock \<Rightarrow> [])), fs')"
  using assms
  by (cases route)
     (simp_all add: convert_callback_def compress_callback_def extract_callback_def
        replying_cleanup)

lemma callback_clean:
  assumes "route \<noteq> Unlock" and "\<not> checkPasswordError stderr stdout" and "error = None"
  shows "replied_status (callback route mode inputPath out error stdout stderr fs) \<noteq> Some 500"
proof (cases route)
  case Convert
  with assms show ?thesis
    by (simp add: convert_callback_def replied_status_def)
next
  case Compress
  with assms show ?thesis
    by (simp add: compress_callback_def replied_status_def getFileSizeMB_def split: sum.splits)
next
  case Extract
  with assms show ?thesis
    by (cases "readdirSync fs out")
       (simp_all add: extract_callback_def replied_status_def replying_cleanup)
next
  case Unlock
  with assms show ?thesis by simp
qed

lemma unlock_refused:
  assumes "error \<noteq> None \<or> sublist ''password'' (toLowerCase stderr)"
  shows "\<exists>fs'. callback Unlock mode inputPath out error stdout stderr fs
           = Inr (Done (Send 401 ''Incorrect Password or File Error''), fs')"
  using assms by (auto simp: unlock_callback_def str_includes_def replying_cleanup)

lemma unlock_served:
  assumes "error = None" and "\<not> sublist ''password'' (toLowerCase stderr)"
  shows "callback Unlock mode inputPath out error stdout stderr fs
           = Inr (Done (Download out ''unlocked.pdf''), fs)"
  using assms by (simp add: unlock_callback_def str_includes_def)

text \<open>
  Claim C5, as the code has it. \<^verbatim>\<open>checkPasswordError\<close> holds exactly when the
  lower-cased text of stderr followed by stdout contains \<open>password\<close> or \<open>encrypted\<close>.
  In the callbacks of convert, compress and extract it is tested first: when it holds the answer
  is 401 \<open>PASSWORD_REQUIRED\<close>, whether or not the subprocess reported an error. The
  callback of unlock does not use it: it answers 401 \<open>Incorrect Password or File Error\<close>
  when the subprocess reported an error or the lower-cased stderr contains \<open>password\<close>,
  and serves the download otherwise, whatever stdout holds.
\<close>

theorem C5_credential_priority:
  "(checkPasswordError stderr stdout \<longleftrightarrow>
       sublist ''password'' (toLowerCase (stderr @ stdout))
       \<or> sublist ''encrypted'' (toLowerCase (stderr @ stdout)))
   \<and> (route \<noteq> Unlock \<and> checkPasswordError stderr stdout \<longrightarrow>
         (\<exists>fs'. callback route mode inputPath out error stdout stderr fs
                  = Inr (Done (Send 401 ''PASSWORD_REQUIRED''), fs')))
   \<and> (error \<noteq> None \<or> sublist ''password'' (toLowerCase stderr) \<longrightarrow>
         (\<exists>fs'. callback Unlock mode inputPath out error stdout stderr fs
                  = Inr (Done (Send 401 ''Incorrect Password or File Error''), fs')))
   \<and> (error = None \<and> \<not> sublist ''password'' (toLowerCase stderr) \<longrightarrow>
         callback Unlock mode inputPath out error stdout stderr fs
           = Inr (Done (Download out ''unlocked.pdf''), fs))"
  using checkPasswordError_markers [of stderr stdout]
    callback_marker [of route stderr stdout mode inputPath out error fs]
    unlock_refused [of error stderr mode inputPath out stdout fs]
    unlock_served [of error stderr mode inputPath out stdout fs]
  by blast

text \<open>A wrong password on extract, a failed and a clean run of unlock.\<close>

theorem C5_credential_priority_witness:
  "Extract \<noteq> Unlock
   \<and> checkPasswordError ''Command Line Error: Incorrect password'' []
   \<and> (\<exists>fs'. callback Extract ''images'' ''uploads/3f9a'' ''uploads/extract_1700000000000''
               (Some ''Command failed: pdfimages'') [] ''Command Line Error: Incorrect password''
               staged
             = Inr (Done (Send 401 ''PASSWORD_REQUIRED''), fs'))
   \<and> (\<exists>fs'. callback Unlock ''images'' ''uploads/3f9a'' ''uploads/unlocked_3f9a.pdf''
               (Some ''Command failed: gs'') [] [] staged
             = Inr (Done (Send 401 ''Incorrect Password or File Error''), fs'))
   \<and> \<not> sublist ''password'' (toLowerCase [])
   \<and> callback Unlock ''images'' ''uploads/3f9a'' ''uploads/unlocked_3f9a.pdf'' None [] [] staged
       = Inr (Done (Download ''uploads/unlocked_3f9a.pdf'' ''unlocked.pdf''), staged)"
proof -
  have r: "Extract \<noteq> Unlock" by simp
  have m: "checkPasswordError ''Command Line Error: Incorrect password'' []"
    by code_simp
  have e: "Some ''Command failed: gs'' \<noteq> None" by simp
  have n: "\<not> sublist ''password'' (toLowerCase [])"
    by (simp add: toLowerCase_def)
  note T = C5_credential_priority [where route=Extract
      and stderr="''Command Line Error: Incorrect password''" and stdout="[]"
      and mode="''images''" and inputPath="''uploads/3f9a''"
      and out="''uploads/extract_1700000000000''" and error="Some ''Command failed: pdfimages''"
      and fs=staged]
  note U = C5_credential_priority [where route=Unlock and stderr="[]" and stdout="[]"
      and mode="''images''" and inputPath="''uploads/3f9a''"
      and out="''uploads/unlocked_3f9a.pdf''" and error="Some ''Command failed: gs''" and fs=staged]
  note V = C5_credential_priority [where route=Unlock and stderr="[]" and stdout="[]"
      and mode="''images''" and inputPath="''uploads/3f9a''"
      and out="''uploads/unlocked_3f9a.pdf''" and error=None and fs=staged]
  from T r m have a: "\<exists>fs'. callback Extract ''images'' ''uploads/3f9a'' ''uploads/extract_1700000000000''
               (Some ''Command failed: pdfimages'') [] ''Command Line Error: Incorrect password''
               staged
             = Inr (Done (Send 401 ''PASSWORD_REQUIRED''), fs')"
    by blast
  from U e have b: "\<exists>fs'. callback Unlock ''images'' ''uploads/3f9a'' ''uploads/unlocked_3f9a.pdf''
               (Some ''Command failed: gs'') [] [] staged
             = Inr (Done (Send 401 ''Incorrect Password or File Error''), fs')"
    by blast
  from V n have c: "callback Unlock ''images'' ''uploads/3f9a'' ''uploads/unlocked_3f9a.pdf'' None [] [] staged
       = Inr (Done (Download ''uploads/unlocked_3f9a.pdf'' ''unlocked.pdf''), staged)"
    by blast
  from r m a b n c show ?thesis by blast
qed

text \<open>
  An unlock job that reports no error and writes a marker to stdout only: the text holds a
  marker, and the answer is the download.
\<close>

theorem C5_unlock_stdout_counterexample:
  "checkPasswordError [] ''This file is encrypted''
   \<and> callback Unlock ''images'' ''uploads/3f9a'' ''uploads/unlocked_3f9a.pdf'' None
        ''This file is encrypted'' [] staged
       = Inr (Done (Download ''uploads/unlocked_3f9a.pdf'' ''unlocked.pdf''), staged)"
proof -
  have "checkPasswordError [] ''This file is encrypted''"
    by code_simp
  moreover have "callback Unlock ''images'' ''uploads/3f9a'' ''uploads/unlocked_3f9a.pdf'' None
        ''This file is encrypted'' [] staged
       = Inr (Done (Download ''uploads/unlocked_3f9a.pdf'' ''unlocked.pdf''), staged)"
    by (simp add: unlock_callback_def str_includes_def toLowerCase_def)
  ultimately show ?thesis by blast
qed

text \<open>
  Claim C7, as the code has it. The callbacks of convert, compress and extract answer 500
  exactly when the subprocess reported an error and its text holds no credential marker, each
  with its own message. The callback of unlock never answers 500: every error of the
  subprocess is answered 401, marker or not.
\<close>

theorem C7_generic_failure:
  "(route \<noteq> Unlock \<longrightarrow>
      (replied_status (callback route mode inputPath out error stdout stderr fs) = Some 500
         \<longleftrightarrow> error \<noteq> None \<and> \<not> checkPasswordError stderr stdout))
   \<and> (route \<noteq> Unlock \<and> error \<noteq> None \<and> \<not> checkPasswordError stderr stdout \<longrightarrow>
         (\<exists>fs'. callback route mode inputPath out error stdout stderr fs
                  = Inr (Done (Send 500 (case route of Convert \<Rightarrow> ''Error converting file.''
                                          | Compress \<Rightarrow> ''Compression failed.''
                                          | Extract \<Rightarrow> ''Processing failed.''
                                          | Unlock \<Rightarrow> [])), fs')))
   \<and> replied_status (callback Unlock mode inputPath out error stdout stderr fs) \<noteq> Some 500
   \<and> (error \<noteq> None \<longrightarrow>
         replied_status (callback Unlock mode inputPath out error stdout stderr fs) = Some 401)"
proof (intro conjI impI)
  assume r: "route \<noteq> Unlock"
  show "replied_status (callback route mode inputPath out error stdout stderr fs) = Some 500
         \<longleftrightarrow> error \<noteq> None \<and> \<not> checkPasswordError stderr stdout"
  proof (cases "checkPasswordError stderr stdout")
    case True
    from callback_marker [OF r True, of mode inputPath out error fs]
    show ?thesis using True by (auto simp: replied_status_def)
  next
    case False
    note nm = this
    show ?thesis
    proof (cases "error = None")
      case True
      from callback_clean [OF r nm True, of mode inputPath out fs]
      show ?thesis using True by simp
    next
      case False
      from callback_error [OF r nm False, of mode inputPath out fs]
      show ?thesis using nm False by (auto simp: replied_status_def)
    qed
  qed
next
  assume "route \<noteq> Unlock \<and> error \<noteq> None \<and> \<not> checkPasswordError stderr stdout"
  then show "\<exists>fs'. callback route mode inputPath out error stdout stderr fs
                  = Inr (Done (Send 500 (case route of Convert \<Rightarrow> ''Error converting file.''
                                          | Compress \<Rightarrow> ''Compression failed.''
                                          | Extract \<Rightarrow> ''Processing failed.''
                                          | Unlock \<Rightarrow> [])), fs')"
    by (intro callback_error) simp_all
next
  show "replied_status (callback Unlock mode inputPath out error stdout stderr fs) \<noteq> Some 500"
    by (simp add: unlock_callback_def replying_cleanup replied_status_def)
next
  assume "error \<noteq> None"
  then show "replied_status (callback Unlock mode inputPath out error stdout stderr fs) = Some 401"
    by (simp add: unlock_callback_def)
qed

text \<open>The same failed run, without a marker, on compress and on unlock.\<close>

theorem C7_generic_failure_witness:
  "Compress \<noteq> Unlock
   \<and> Some ''Command failed: gs'' \<noteq> None
   \<and> \<not> checkPasswordError ''Error: /undefined in obj'' []
   \<and> replied_status (callback Compress ''target'' ''uploads/3f9a'' ''uploads/compressed_3f9a.pdf''
                        (Some ''Command failed: gs'') [] ''Error: /undefined in obj'' staged)
       = Some 500
   \<and> (\<exists>fs'. callback Compress ''target'' ''uploads/3f9a'' ''uploads/compressed_3f9a.pdf''
               (Some ''Command failed: gs'') [] ''Error: /undefined in obj'' staged
             = Inr (Done (Send 500 ''Compression failed.''), fs'))
   \<and> replied_status (callback Unlock ''target'' ''uploads/3f9a'' ''uploads/unlocked_3f9a.pdf''
                        (Some ''Command failed: gs'') [] ''Error: /undefined in obj'' staged)
       = Some 401"
proof -
  have r: "Compress \<noteq> Unlock" and e: "Some ''Command failed: gs'' \<noteq> None"
    by simp_all
  have m: "\<not> checkPasswordError ''Error: /undefined in obj'' []"
    by code_simp
  note T = C7_generic_failure [where route=Compress and mode="''target''"
      and inputPath="''uploads/3f9a''" and out="''uploads/compressed_3f9a.pdf''"
      and error="Some ''Command failed: gs''" and stdout="[]"
      and stderr="''Error: /undefined in obj''" and fs=staged]
  note U = C7_generic_failure [where route=Unlock and mode="''target''"
      and inputPath="''uploads/3f9a''" and out="''uploads/unlocked_3f9a.pdf''"
      and error="Some ''Command failed: gs''" and stdout="[]"
      and stderr="''Error: /undefined in obj''" and fs=staged]
  from T r e m have a: "replied_status (callback Compress ''target'' ''uploads/3f9a''
                        ''uploads/compressed_3f9a.pdf''
                        (Some ''Command failed: gs'') [] ''Error: /undefined in obj'' staged)
       = Some 500"
    by blast
  from T r e m have b: "\<exists>fs'. callback Compress ''target'' ''uploads/3f9a'' ''uploads/compressed_3f9a.pdf''
               (Some ''Command failed: gs'') [] ''Error: /undefined in obj'' staged
             = Inr (Done (Send 500 ''Compression failed.''), fs')"
    by simp
  from U e have c: "replied_status (callback Unlock ''target'' ''uploads/3f9a''
                        ''uploads/unlocked_3f9a.pdf''
                        (Some ''Command failed: gs'') [] ''Error: /undefined in obj'' staged)
       = Some 401"
    by blast
  from r e m a b c show ?thesis by blast
qed

text \<open>
  An unlock job whose subprocess fails without any marker in its text is answered 401.
\<close>

theorem C7_unlock_error_counterexample:
  "\<not> checkPasswordError ''Error: /undefined in obj'' []
   \<and> callback Unlock ''target'' ''uploads/3f9a'' ''uploads/unlocked_3f9a.pdf''
        (Some ''Command failed: gs'') [] ''Error: /undefined in obj'' staged
       = Inr (Done (Send 401 ''Incorrect Password or File Error''),
              staged(''uploads/3f9a'' := None))"
proof -
  have "\<not> checkPasswordError ''Error: /undefined in obj'' []"
    by code_simp
  moreover have "callback Unlock ''target'' ''uploads/3f9a'' ''uploads/unlocked_3f9a.pdf''
        (Some ''Command failed: gs'') [] ''Error: /undefined in obj'' staged
       = Inr (Done (Send 401 ''Incorrect Password or File Error''),
              staged(''uploads/3f9a'' := None))"
    by (simp add: unlock_callback_def replying_cleanup cleanup_try_def guarded_def
          existsSync_def unlinkSync_def)
  ultimately show ?thesis by blast
qed

section \<open>File sizes and the compression profile\<close>

lemma target_unsized:
  assumes "val = NaN \<or> val = PosInf \<or> (\<exists>v. 0 \<le> v \<and> val = Num v)"
  shows "gsSettings (Some ''target'') val (Num 0) = ''/printer''"
proof -
  from assms consider "val = NaN" | "val = PosInf" | "val = Num 0" | v where "0 < v" "val = Num v"
    by (auto simp: less_le)
  then show ?thesis
    by cases (simp_all add: gsSettings_def)
qed

text \<open>
  Claim C10. \<^verbatim>\<open>getFileSizeMB\<close> always returns: the size divided by \<open>1024 * 1024\<close>
  when \<^verbatim>\<open>statSync\<close> succeeds, 0 when it throws. So a compress request in mode
  \<open>target\<close> whose staged input cannot be stat-ed has an original size of 0, and for a
  parsed value that is \<^verbatim>\<open>NaN\<close>, infinite or a finite number not below 0 the ratio is
  \<^verbatim>\<open>NaN\<close> or infinite, the profile is \<open>/printer\<close>, and the handler goes on to run
  the subprocess with it.
\<close>

theorem C10_size_never_throws:
  "(\<exists>v. getFileSizeMB fs p = Inr v)
   \<and> (\<forall>n. statSync fs p = Inr n \<longrightarrow> getFileSizeMB fs p = Inr (Num (real n / (1024 * 1024))))
   \<and> (\<forall>e. statSync fs p = Inl e \<longrightarrow> getFileSizeMB fs p = Inr (Num 0))
   \<and> (\<forall>f e. req_file req = Some f \<and> statSync fs (file_path f) = Inl e
          \<and> body_mode req = Some ''target''
          \<and> (pf (body_value req) = NaN \<or> pf (body_value req) = PosInf
               \<or> (\<exists>v. 0 \<le> v \<and> pf (body_value req) = Num v)) \<longrightarrow>
          gsSettings (body_mode req) (pf (body_value req)) (Num 0) = ''/printer''
        \<and> compress_handler pf req fs =
            Inr (Exec (compress_command ''/printer''
                        (if or_default (body_password req) [] \<noteq> []
                         then ''-sPDFPassword='' @ quoted (or_default (body_password req) [])
                         else [])
                        (''uploads/compressed_'' @ filename f @ ''.pdf'') (file_path f)), fs))"
proof (intro conjI allI impI)
  show "\<exists>v. getFileSizeMB fs p = Inr v"
    by (cases "statSync fs p") (simp_all add: getFileSizeMB_def)
next
  fix n assume "statSync fs p = Inr n"
  then show "getFileSizeMB fs p = Inr (Num (real n / (1024 * 1024)))"
    by (simp add: getFileSizeMB_def)
next
  fix e assume "statSync fs p = Inl e"
  then show "getFileSizeMB fs p = Inr (Num 0)"
    by (simp add: getFileSizeMB_def)
next
  fix f e
  assume a: "req_file req = Some f \<and> statSync fs (file_path f) = Inl e
          \<and> body_mode req = Some ''target''
          \<and> (pf (body_value req) = NaN \<or> pf (body_value req) = PosInf
               \<or> (\<exists>v. 0 \<le> v \<and> pf (body_value req) = Num v))"
  then have s: "gsSettings (Some ''target'') (pf (body_value req)) (Num 0) = ''/printer''"
    by (intro target_unsized) blast
  with a show "gsSettings (body_mode req) (pf (body_value req)) (Num 0) = ''/printer''"
    by simp
  have z: "getFileSizeMB fs (file_path f) = Inr (Num 0)"
    using a by (simp add: getFileSizeMB_def)
  show "compress_handler pf req fs =
            Inr (Exec (compress_command ''/printer''
                        (if or_default (body_password req) [] \<noteq> []
                         then ''-sPDFPassword='' @ quoted (or_default (body_password req) [])
                         else [])
                        (''uploads/compressed_'' @ filename f @ ''.pdf'') (file_path f)), fs)"
    using a s z by (simp add: compress_handler_def Let_def)
qed

text \<open>A staged file of 52311 bytes, and a request whose upload is no longer on disk.\<close>

theorem C10_size_never_throws_witness:
  "statSync staged ''uploads/3f9a'' = Inr 52311
   \<and> getFileSizeMB staged ''uploads/3f9a'' = Inr (Num (52311 / (1024 * 1024)))
   \<and> req_file unstaged = Some \<lparr>file_path = ''uploads/77c0'', filename = ''77c0''\<rparr>
   \<and> statSync staged ''uploads/77c0'' = Inl ENOENT
   \<and> getFileSizeMB staged ''uploads/77c0'' = Inr (Num 0)
   \<and> body_mode unstaged = Some ''target''
   \<and> compress_handler (\<lambda>v. Num 3) unstaged staged
       = Inr (Exec (compress_command ''/printer'' [] ''uploads/compressed_77c0.pdf''
                      ''uploads/77c0''), staged)
   \<and> compress_handler (\<lambda>v. NaN) unstaged staged
       = Inr (Exec (compress_command ''/printer'' [] ''uploads/compressed_77c0.pdf''
                      ''uploads/77c0''), staged)"
proof -
  have st: "statSync staged ''uploads/3f9a'' = Inr 52311"
    "statSync staged ''uploads/77c0'' = Inl ENOENT"
    by (simp_all add: statSync_def)
  have rq: "req_file unstaged = Some \<lparr>file_path = ''uploads/77c0'', filename = ''77c0''\<rparr>"
    "body_mode unstaged = Some ''target''"
    by simp_all
  note A = C10_size_never_throws [where fs=staged and p="''uploads/3f9a''"
      and req=unstaged and pf="\<lambda>v. Num 3"]
  note B = C10_size_never_throws [where fs=staged and p="''uploads/77c0''"
      and req=unstaged and pf="\<lambda>v. NaN"]
  from A st have a: "getFileSizeMB staged ''uploads/3f9a'' = Inr (Num (52311 / (1024 * 1024)))"
    by simp
  from B st have b: "getFileSizeMB staged ''uploads/77c0'' = Inr (Num 0)"
    by blast
  have v: "(\<lambda>v::string option. Num 3) (body_value unstaged) = NaN
      \<or> (\<lambda>v::string option. Num 3) (body_value unstaged) = PosInf
      \<or> (\<exists>v. 0 \<le> v \<and> (\<lambda>v::string option. Num 3) (body_value unstaged) = Num v)"
    by simp
  from A [THEN conjunct2, THEN conjunct2, THEN conjunct2, rule_format,
      of "\<lparr>file_path = ''uploads/77c0'', filename = ''77c0''\<rparr>" ENOENT] rq st v
  have c: "compress_handler (\<lambda>v. Num 3) unstaged staged
       = Inr (Exec (compress_command ''/printer'' [] ''uploads/compressed_77c0.pdf''
                      ''uploads/77c0''), staged)"
    by (simp add: or_default_def)
  from B [THEN conjunct2, THEN conjunct2, THEN conjunct2, rule_format,
      of "\<lparr>file_path = ''uploads/77c0'', filename = ''77c0''\<rparr>" ENOENT] rq st
  have d: "compress_handler (\<lambda>v. NaN) unstaged staged
       = Inr (Exec (compress_command ''/printer'' [] ''uploads/compressed_77c0.pdf''
                      ''uploads/77c0''), staged)"
    by (simp add: or_default_def)
  from st rq a b c d show ?thesis by simp
qed

end
